theory Spec2Isabelle
  imports Complex_Main "HOL-Library.Word" "HOL-Library.Option_ord"
begin

section \<open>The SafeAudioProcessor of safe\_audio\_system.py\<close>

text \<open>
  The embedding follows \<^verbatim>\<open>class SafeAudioProcessor\<close>. NumPy's floating-point arrays are
  lists of reals: every operation is the exact one that the IEEE operation rounds, so the
  theorems below are about the arithmetic the code asks for, not about rounding error.
  A decibel value is a \<open>real option\<close>, where \<open>None\<close> is \<^verbatim>\<open>-np.inf\<close>; the order of
  \<open>HOL-Library.Option_ord\<close> puts \<open>None\<close> below every \<open>Some x\<close>, as \<^verbatim>\<open>-inf\<close> is
  below every finite level. An \<^verbatim>\<open>int16\<close> sample is a \<open>16 word\<close> read by \<open>sint\<close>.
\<close>

type_synonym db = "real option"

datatype error = ValueError | TypeError | ZeroDivisionError

record processor =
  CHUNK :: nat
  RATE :: nat
  MAX_DB :: real
  noise_profile :: "real list option"
  noise_learning_duration :: real
  noise_reduction_factor :: real
  noise_buffer :: "real list"
  noise_buffer_maxlen :: nat
  learning_noise :: bool
  noise_learned :: bool
  processing_enabled :: bool
  current_db :: db
  max_db_recorded :: db
  processed_db :: "db option"

text \<open>\<^verbatim>\<open>int(x)\<close> on a float truncates towards zero.\<close>

definition int_trunc :: "real \<Rightarrow> int" where
  "int_trunc x = (if 0 \<le> x then \<lfloor>x\<rfloor> else \<lceil>x\<rceil>)"

text \<open>The length of the learning window, \<^verbatim>\<open>int(self.RATE * self.noise_learning_duration)\<close>.\<close>

definition learning_window :: "processor \<Rightarrow> int" where
  "learning_window self = int_trunc (real (RATE self) * noise_learning_duration self)"

text \<open>
  \<^verbatim>\<open>__init__\<close>. The attribute \<^verbatim>\<open>processed_db\<close> is not created there (the assignment
  after the selection loop of \<^verbatim>\<open>select_desktop_microphone\<close> is unreachable), so it
  starts absent. The deque's \<^verbatim>\<open>maxlen\<close> is fixed here.
\<close>

definition init :: processor where
  "init = \<lparr> CHUNK = 1024, RATE = 44100, MAX_DB = 70,
            noise_profile = None, noise_learning_duration = 3, noise_reduction_factor = 0.7,
            noise_buffer = [], noise_buffer_maxlen = nat (int_trunc (real 44100 * 3)),
            learning_noise = True, noise_learned = False, processing_enabled = True,
            current_db = Some 0, max_db_recorded = Some 0, processed_db = None \<rparr>"

subsection \<open>Level meter\<close>

definition db_to_linear :: "real \<Rightarrow> real" where
  "db_to_linear d = 10 powr (d / 20)"

definition calculate_db_level :: "real list \<Rightarrow> db" where
  "calculate_db_level audio_data =
     (if length audio_data = 0 then None
      else
        let rms = sqrt (sum_list (map (\<lambda>x. x\<^sup>2) audio_data) / real (length audio_data))
        in if rms > 0 then Some (20 * log 10 rms + 94) else None)"

subsection \<open>Adaptive limiter\<close>

definition adaptive_volume_control :: "processor \<Rightarrow> real list \<Rightarrow> real list \<times> db" where
  "adaptive_volume_control self audio_data =
     (let current_db = calculate_db_level audio_data
      in case current_db of
           None \<Rightarrow> (audio_data, current_db)
         | Some d \<Rightarrow>
             if d > MAX_DB self then
               let reduction_db = d - MAX_DB self;
                   reduction_factor = db_to_linear (- reduction_db);
                   scaled = map (\<lambda>x. x * reduction_factor) audio_data
               in (map (\<lambda>x. tanh (x * 0.8) * 0.8) scaled, current_db)
             else (audio_data, current_db))"

subsection \<open>NumPy: window, transform, magnitude and phase\<close>

text \<open>\<^verbatim>\<open>np.hanning(M)\<close>: empty below one point, a single one for one point, else
  \<^verbatim>\<open>0.5 + 0.5*cos(pi*n/(M-1))\<close> over \<^verbatim>\<open>n = arange(1-M, M, 2)\<close>.\<close>

definition hanning :: "nat \<Rightarrow> real list" where
  "hanning M =
     (if M < 1 then []
      else if M = 1 then [1]
      else map (\<lambda>k. 0.5 + 0.5 * cos (pi * real_of_int (1 - int M + 2 * int k) / real (M - 1)))
             [0..<M])"

text \<open>The discrete Fourier transform and its inverse as \<^verbatim>\<open>np.fft\<close> defines them; both
  raise \<^verbatim>\<open>ValueError\<close> on an empty array.\<close>

definition dft :: "complex list \<Rightarrow> complex list" where
  "dft a =
     (let n = length a
      in map (\<lambda>k. sum_list (map (\<lambda>m. a ! m * cis (- (2 * pi * real m * real k / real n))) [0..<n]))
           [0..<n])"

definition idft :: "complex list \<Rightarrow> complex list" where
  "idft a =
     (let n = length a
      in map (\<lambda>k. sum_list (map (\<lambda>m. a ! m * cis (2 * pi * real m * real k / real n)) [0..<n])
                    / of_nat n)
           [0..<n])"

definition fft :: "complex list \<Rightarrow> error + complex list" where
  "fft a = (if length a < 1 then Inl ValueError else Inr (dft a))"

definition ifft :: "complex list \<Rightarrow> error + complex list" where
  "ifft a = (if length a < 1 then Inl ValueError else Inr (idft a))"

text \<open>\<^verbatim>\<open>np.angle(z)\<close> is \<^verbatim>\<open>arctan2(z.imag, z.real)\<close>.\<close>

definition arctan2 :: "real \<Rightarrow> real \<Rightarrow> real" where
  "arctan2 y x =
     (if 0 < x then arctan (y / x)
      else if x < 0 then (if 0 \<le> y then arctan (y / x) + pi else arctan (y / x) - pi)
      else if 0 < y then pi / 2
      else if y < 0 then - (pi / 2)
      else 0)"

definition angle :: "complex \<Rightarrow> real" where
  "angle z = arctan2 (Im z) (Re z)"

subsection \<open>Spectral subtraction\<close>

text \<open>
  The function tests only for a missing profile and for fewer than 64 samples. The
  elementwise subtraction of the profile follows NumPy's broadcasting: equal lengths, or a
  profile of one value stretched over the chunk; any other pair of lengths raises
  \<^verbatim>\<open>ValueError\<close>.
\<close>

definition spectral_subtraction :: "processor \<Rightarrow> real list \<Rightarrow> real list option \<Rightarrow> error + real list" where
  "spectral_subtraction self audio_data noise_spectrum =
     (case noise_spectrum of
        None \<Rightarrow> Inr audio_data
      | Some ns \<Rightarrow>
          if length audio_data < 64 then Inr audio_data
          else
            (let windowed_audio = map2 (*) audio_data (hanning (length audio_data))
             in (case fft (map complex_of_real windowed_audio) of
                   Inl e \<Rightarrow> Inl e
                 | Inr audio_fft \<Rightarrow>
                     (let audio_spectrum = map cmod audio_fft;
                          audio_phase = map angle audio_fft;
                          scaled_noise = map (\<lambda>v. noise_reduction_factor self * v) ns
                      in if length scaled_noise \<noteq> length audio_spectrum \<and> length scaled_noise \<noteq> 1
                         then Inl ValueError
                         else
                           (let noise_b = (if length scaled_noise = length audio_spectrum then scaled_noise
                                           else replicate (length audio_spectrum) (hd scaled_noise));
                                enhanced_spectrum =
                                  map2 max (map2 (-) audio_spectrum noise_b)
                                           (map (\<lambda>v. 0.1 * v) audio_spectrum);
                                enhanced_fft =
                                  map2 (\<lambda>m p. complex_of_real m * cis p) enhanced_spectrum audio_phase
                            in (case ifft enhanced_fft of
                                  Inl e \<Rightarrow> Inl e
                                | Inr y \<Rightarrow> Inr (map Re y)))))))"

subsection \<open>Low-pass filter\<close>

text \<open>
  \<^verbatim>\<open>scipy.signal.butter\<close> and \<^verbatim>\<open>scipy.signal.filtfilt\<close> are library code. What the
  library checks before it computes is written out: the division by the Nyquist rate,
  \<^verbatim>\<open>butter\<close>'s demand \<^verbatim>\<open>0 < Wn < 1\<close>, and \<^verbatim>\<open>filtfilt\<close>'s demand that the input be
  longer than the default \<^verbatim>\<open>padlen = 3 * max(len(a), len(b))\<close>, which is 15 for the five
  coefficients of an order-4 filter. The numbers the library then computes are the
  parameter \<open>filt\<close> (normalised cutoff and samples to filtered samples).
\<close>

definition low_pass_filter ::
  "(real \<Rightarrow> real list \<Rightarrow> real list) \<Rightarrow> processor \<Rightarrow> real list \<Rightarrow> real \<Rightarrow> error + real list" where
  "low_pass_filter filt self audio_data cutoff_freq =
     (let nyquist = real (RATE self) / 2
      in if nyquist = 0 then Inl ZeroDivisionError
         else
           let normalized_cutoff = cutoff_freq / nyquist
           in if \<not> (0 < normalized_cutoff \<and> normalized_cutoff < 1) then Inl ValueError
              else if length audio_data \<le> 3 * max 5 5 then Inl ValueError
              else Inr (filt normalized_cutoff audio_data))"

subsection \<open>Conversion to int16\<close>

text \<open>\<^verbatim>\<open>np.clip(a, lo, hi)\<close> and \<^verbatim>\<open>astype(np.int16)\<close>: the cast truncates towards zero
  and, out of range, keeps the low 16 bits.\<close>

definition clip :: "real \<Rightarrow> real \<Rightarrow> real \<Rightarrow> real" where
  "clip x lo hi = min (max x lo) hi"

definition astype_int16 :: "real \<Rightarrow> 16 word" where
  "astype_int16 x = word_of_int (int_trunc x)"

text \<open>\<^verbatim>\<open>audio_data.astype(np.float32) / 32768.0\<close> and
  \<^verbatim>\<open>np.clip(audio_float * 32768.0, -32768, 32767).astype(np.int16)\<close>.\<close>

definition to_float :: "16 word list \<Rightarrow> real list" where
  "to_float audio_data = map (\<lambda>w. real_of_int (sint w) / 32768) audio_data"

definition to_int16 :: "real list \<Rightarrow> 16 word list" where
  "to_int16 audio_float = map (\<lambda>x. astype_int16 (clip (x * 32768) (- 32768) 32767)) audio_float"

subsection \<open>The controller\<close>

text \<open>\<^verbatim>\<open>deque.extend\<close> on a deque with \<^verbatim>\<open>maxlen\<close>: the oldest items fall out on the left.\<close>

definition deque_extend :: "nat \<Rightarrow> 'a list \<Rightarrow> 'a list \<Rightarrow> 'a list" where
  "deque_extend maxlen d xs =
     (let ys = d @ xs in if maxlen < length ys then drop (length ys - maxlen) ys else ys)"

text \<open>
  \<^verbatim>\<open>process_audio_chunk\<close> returns the processor as the call leaves it together with the
  chunk it returns or the exception it raises: the assignments made before a raise stay.
\<close>

definition process_audio_chunk ::
  "(real \<Rightarrow> real list \<Rightarrow> real list) \<Rightarrow> processor \<Rightarrow> 16 word list
     \<Rightarrow> processor \<times> (error + 16 word list)" where
  "process_audio_chunk filt self0 audio_data =
     (let audio_float = to_float audio_data;
          input_db = calculate_db_level audio_float;
          self = self0\<lparr>current_db := input_db,
                       max_db_recorded := max (max_db_recorded self0) input_db\<rparr>
      in if learning_noise self then
           (let self = self\<lparr>noise_buffer :=
                               deque_extend (noise_buffer_maxlen self) (noise_buffer self) audio_float\<rparr>
            in if learning_window self \<le> int (length (noise_buffer self)) then
                 (let noise_array = noise_buffer self;
                      windowed_noise = map2 (*) noise_array (hanning (length noise_array))
                  in case fft (map complex_of_real windowed_noise) of
                       Inl e \<Rightarrow> (self, Inl e)
                     | Inr noise_fft \<Rightarrow>
                         (self\<lparr>noise_profile := Some (map cmod noise_fft),
                               learning_noise := False, noise_learned := True\<rparr>,
                          Inr audio_data))
               else (self, Inr audio_data))
         else if \<not> processing_enabled self then (self, Inr audio_data)
         else if noise_learned self \<and> 0 < length audio_float then
           (case noise_profile self of
              None \<Rightarrow> (self, Inl TypeError)
            | Some profile \<Rightarrow>
                (case (if length audio_float = length profile
                       then spectral_subtraction self audio_float (noise_profile self)
                       else Inr audio_float) of
                   Inl e \<Rightarrow> (self, Inl e)
                 | Inr subtracted \<Rightarrow>
                     (case low_pass_filter filt self subtracted 8000 of
                        Inl e \<Rightarrow> (self, Inl e)
                      | Inr filtered \<Rightarrow>
                          (let (limited, processed) = adaptive_volume_control self filtered;
                               self = self\<lparr>processed_db := Some processed\<rparr>
                           in (self, Inr (to_int16 limited))))))
         else (self, Inr (to_int16 audio_float)))"

subsection \<open>The variant of simple\_pc\_to\_headphone.py\<close>

text \<open>
  \<^verbatim>\<open>SimpleAudioProcessor\<close> limits without filter and soft knee and converts without
  \<^verbatim>\<open>np.clip\<close>. Its fields \<^verbatim>\<open>MAX_DB\<close> and \<^verbatim>\<open>max_db_recorded\<close> carry a suffix here.
  The mean of an empty array is \<^verbatim>\<open>nan\<close>, and \<^verbatim>\<open>nan > 0\<close> is false. The two deques that
  only feed the plot are left out.
\<close>

record simple_processor =
  MAX_DB_simple :: real
  db_history :: "real list"
  max_db_recorded_simple :: real

definition init_simple :: simple_processor where
  "init_simple = \<lparr> MAX_DB_simple = 70, db_history = [], max_db_recorded_simple = 0 \<rparr>"

definition apply_safety_limiting ::
  "simple_processor \<Rightarrow> real list \<Rightarrow> simple_processor \<times> real list \<times> db" where
  "apply_safety_limiting self0 audio_data =
     (let db_level =
            (if audio_data = [] then None
             else
               let rms = sqrt (sum_list (map (\<lambda>x. x\<^sup>2) audio_data) / real (length audio_data))
               in if rms > 0 then Some (20 * log 10 rms + 94) else None);
          self =
            (case db_level of
               Some d \<Rightarrow>
                 self0\<lparr>max_db_recorded_simple := max (max_db_recorded_simple self0) d,
                       db_history := deque_extend 200 (db_history self0) [d]\<rparr>
             | None \<Rightarrow> self0\<lparr>db_history := deque_extend 200 (db_history self0) [0]\<rparr>);
          processed =
            (case db_level of
               Some d \<Rightarrow>
                 if d > MAX_DB_simple self then
                   let reduction_db = d - MAX_DB_simple self;
                       reduction_factor = 10 powr (- reduction_db / 20)
                   in map (\<lambda>x. x * reduction_factor) audio_data
                 else audio_data
             | None \<Rightarrow> audio_data)
      in (self, processed, db_level))"

text \<open>One round of the loop of \<^verbatim>\<open>audio_processing_loop\<close>: read, limit, convert, write.\<close>

definition audio_processing_step ::
  "simple_processor \<Rightarrow> 16 word list \<Rightarrow> simple_processor \<times> 16 word list" where
  "audio_processing_step self input_data =
     (let audio_input = map (\<lambda>w. real_of_int (sint w) / 32768) input_data;
          (self, processed_audio, db_level) = apply_safety_limiting self audio_input
      in (self, map (\<lambda>x. astype_int16 (x * 32767)) processed_audio))"

subsection \<open>Vocabulary of the statements\<close>

text \<open>
  Names for what the statements below talk about. \<open>meter\<close> is the processor after the
  first three assignments of \<^verbatim>\<open>process_audio_chunk\<close>; \<open>learned_profile\<close> is the value
  assigned to \<^verbatim>\<open>noise_profile\<close> from the buffer; \<open>filter_then_limit\<close> is the run of
  the two last stages on a chunk, with the conversion of the result.
\<close>

definition meter :: "processor \<Rightarrow> 16 word list \<Rightarrow> processor" where
  "meter self audio_data =
     self\<lparr>current_db := calculate_db_level (to_float audio_data),
          max_db_recorded := max (max_db_recorded self) (calculate_db_level (to_float audio_data))\<rparr>"

definition learned_profile :: "real list \<Rightarrow> real list" where
  "learned_profile noise_array =
     map cmod (dft (map complex_of_real (map2 (*) noise_array (hanning (length noise_array)))))"

definition filter_then_limit ::
  "(real \<Rightarrow> real list \<Rightarrow> real list) \<Rightarrow> processor \<Rightarrow> real list \<Rightarrow> processor \<times> (error + 16 word list)" where
  "filter_then_limit filt self audio_float =
     (case low_pass_filter filt self audio_float 8000 of
        Inl e \<Rightarrow> (self, Inl e)
      | Inr filtered \<Rightarrow>
          (self\<lparr>processed_db := Some (snd (adaptive_volume_control self filtered))\<rparr>,
           Inr (to_int16 (fst (adaptive_volume_control self filtered)))))"

text \<open>
  A session is a sequence of calls on the same object. \<open>trace\<close> lists the processor
  before the first call and after each call (a raise leaves the object as it is at that
  point), \<open>samples\<close> counts the samples of a sequence of chunks, and \<open>transitions\<close>
  counts the calls that found \<^verbatim>\<open>learning_noise\<close> set and left it cleared.
\<close>

fun trace :: "(real \<Rightarrow> real list \<Rightarrow> real list) \<Rightarrow> processor \<Rightarrow> 16 word list list \<Rightarrow> processor list" where
  "trace filt s [] = [s]"
| "trace filt s (c # cs) = s # trace filt (fst (process_audio_chunk filt s c)) cs"

definition samples :: "16 word list list \<Rightarrow> nat" where
  "samples cs = sum_list (map length cs)"

fun transitions :: "processor list \<Rightarrow> nat" where
  "transitions (s # s' # ss) =
     (if learning_noise s \<and> \<not> learning_noise s' then 1 else 0) + transitions (s' # ss)"
| "transitions ss = 0"

text \<open>The learning phase before the window is full.\<close>

definition collecting :: "processor \<Rightarrow> bool" where
  "collecting s \<longleftrightarrow>
     learning_noise s \<and> noise_buffer_maxlen s = nat (learning_window s)
     \<and> int (length (noise_buffer s)) < learning_window s"

text \<open>
  Statements at concrete inputs need an instance of the library filter and a processor
  that has left the learning phase: \<open>unfiltered\<close> hands the samples back, and \<open>learned\<close>
  is the new processor after one call with 132300 silent samples.
\<close>

definition unfiltered :: "real \<Rightarrow> real list \<Rightarrow> real list" where
  "unfiltered normalized_cutoff audio_data = audio_data"

definition learned :: processor where
  "learned = fst (process_audio_chunk unfiltered init (replicate 132300 0))"

text \<open>
  The processors a session can reach: the new one, any one after a further call, and any
  one after the flag \<^verbatim>\<open>processing_enabled\<close> is set from outside.
\<close>

inductive reachable :: "(real \<Rightarrow> real list \<Rightarrow> real list) \<Rightarrow> processor \<Rightarrow> bool"
  for filt :: "real \<Rightarrow> real list \<Rightarrow> real list" where
  reachable_init: "reachable filt init"
| reachable_chunk: "reachable filt s \<Longrightarrow> reachable filt (fst (process_audio_chunk filt s c))"
| reachable_flag: "reachable filt s \<Longrightarrow> reachable filt (s\<lparr>processing_enabled := b\<rparr>)"

text \<open>What holds of every processor of a session that started from the new one.\<close>

definition default_session :: "processor \<Rightarrow> bool" where
  "default_session s \<longleftrightarrow>
     RATE s = 44100 \<and> CHUNK s = 1024 \<and> noise_learning_duration s = 3
     \<and> noise_buffer_maxlen s = 132300
     \<and> (if learning_noise s then length (noise_buffer s) < 132300
         else noise_learned s \<and> (case noise_profile s of None \<Rightarrow> False | Some p \<Rightarrow> length p = 132300))"

section \<open>Properties\<close>

subsection \<open>The limiter\<close>

lemma log10_hundredth: "log 10 (1 / 100) = - 2"
proof -
  have "log 10 (10 powr (- 2)) = - 2"
    by (rule log_powr_cancel) auto
  moreover have "(10::real) powr (- 2) = 1 / 100"
    by (simp add: powr_minus_divide)
  ultimately show ?thesis by simp
qed

lemma level_of_hundredth: "calculate_db_level [1 / 100] = Some 54"
  using log10_hundredth by (simp add: calculate_db_level_def Let_def)

lemma tanh_le_self: "0 \<le> (y::real) \<Longrightarrow> tanh y \<le> y"
proof -
  assume y: "0 \<le> y"
  have "\<exists>d. ((\<lambda>t. t - tanh t) has_real_derivative d) (at x) \<and> 0 \<le> d" for x :: real
  proof -
    have "((\<lambda>t. t - tanh t) has_real_derivative (1 - (1 - (tanh x)\<^sup>2))) (at x)"
      by (auto intro!: derivative_eq_intros)
    thus ?thesis
      by (intro exI[of _ "1 - (1 - (tanh x)\<^sup>2)"]) simp
  qed
  with DERIV_nonneg_imp_nondecreasing[OF y, of "\<lambda>t. t - tanh t"]
  have "0 - tanh 0 \<le> y - tanh (y::real)" by blast
  thus ?thesis by simp
qed

lemma abs_tanh_le: "\<bar>tanh (y::real)\<bar> \<le> \<bar>y\<bar>"
  using tanh_le_self[of "\<bar>y\<bar>"] by simp

lemma soft_knee_sq_le: "(tanh (x * g * 0.8) * 0.8)\<^sup>2 \<le> (x * g)\<^sup>2" for x g :: real
proof -
  have "\<bar>tanh (x * g * 0.8) * 0.8\<bar> = \<bar>tanh (x * g * 0.8)\<bar> * 0.8"
    by (simp add: abs_mult)
  also have "\<dots> \<le> \<bar>x * g * 0.8\<bar> * 0.8"
    using abs_tanh_le[of "x * g * 0.8"] by simp
  also have "\<dots> \<le> \<bar>x * g\<bar>"
    by (simp add: abs_mult)
  finally have "\<bar>tanh (x * g * 0.8) * 0.8\<bar> \<le> \<bar>x * g\<bar>" .
  thus ?thesis by (rule abs_le_square_iff[THEN iffD1])
qed

lemma sum_sq_limited:
  "sum_list (map (\<lambda>x. x\<^sup>2) (map (\<lambda>x. tanh (x * 0.8) * 0.8) (map (\<lambda>x. x * g) xs)))
     \<le> g\<^sup>2 * sum_list (map (\<lambda>x. x\<^sup>2) xs)" for g :: real
proof (induction xs)
  case Nil
  show ?case by simp
next
  case (Cons x xs)
  have "(tanh (x * g * 0.8) * 0.8)\<^sup>2 \<le> g\<^sup>2 * x\<^sup>2"
    using soft_knee_sq_le[of x g] by (simp add: power_mult_distrib mult.commute)
  with Cons show ?case by (simp add: distrib_left)
qed

lemma limiter_level_bound:
  assumes lvl: "calculate_db_level xs = Some d" and over: "M < d"
  shows "calculate_db_level (map (\<lambda>x. tanh (x * 0.8) * 0.8) (map (\<lambda>x. x * db_to_linear (- (d - M))) xs))
           \<le> Some M"
proof -
  define n where "n = real (length xs)"
  define S where "S = sum_list (map (\<lambda>x. x\<^sup>2) xs)"
  define g where "g = db_to_linear (- (d - M))"
  define ys where "ys = map (\<lambda>x. tanh (x * 0.8) * 0.8) (map (\<lambda>x. x * g) xs)"
  define S' where "S' = sum_list (map (\<lambda>x. x\<^sup>2) ys)"
  from lvl have ne: "length xs \<noteq> 0"
    by (auto simp: calculate_db_level_def split: if_splits)
  hence n: "0 < n" by (simp add: n_def)
  from lvl ne have rms: "0 < sqrt (S / n)" and d: "d = 20 * log 10 (sqrt (S / n)) + 94"
    by (auto simp: calculate_db_level_def Let_def S_def n_def split: if_splits)
  have g: "0 < g" by (simp add: g_def db_to_linear_def)
  have lg: "20 * log 10 g = - (d - M)"
    by (simp add: g_def db_to_linear_def)
  have "S' \<le> g\<^sup>2 * S"
    unfolding S'_def ys_def S_def by (rule sum_sq_limited)
  hence "S' / n \<le> g\<^sup>2 * S / n"
    using n by (simp add: divide_right_mono)
  hence "sqrt (S' / n) \<le> sqrt (g\<^sup>2 * (S / n))" by simp
  also have "\<dots> = g * sqrt (S / n)"
    using g real_sqrt_mult[of "g\<^sup>2" "S / n"] by simp
  finally have le: "sqrt (S' / n) \<le> g * sqrt (S / n)" .
  have len: "length ys = length xs" by (simp add: ys_def)
  show ?thesis
  proof (cases "0 < sqrt (S' / n)")
    case False
    hence "calculate_db_level ys = None"
      using len by (simp add: calculate_db_level_def Let_def S'_def n_def)
    thus ?thesis by (simp add: ys_def g_def)
  next
    case True
    hence "log 10 (sqrt (S' / n)) \<le> log 10 (g * sqrt (S / n))"
      using le by (intro log_mono) auto
    also have "\<dots> = log 10 g + log 10 (sqrt (S / n))"
      using g rms by (rule log_mult_pos)
    finally have "20 * log 10 (sqrt (S' / n)) + 94 \<le> M"
      using lg d by simp
    moreover have "calculate_db_level ys = Some (20 * log 10 (sqrt (S' / n)) + 94)"
      using True len ne by (simp add: calculate_db_level_def Let_def S'_def n_def)
    ultimately show ?thesis by (simp add: ys_def g_def)
  qed
qed

lemma level_of_one: "calculate_db_level [1] = Some 94"
  by (simp add: calculate_db_level_def Let_def)

lemma avc_compliant:
  assumes "calculate_db_level xs \<le> Some (MAX_DB self)"
  shows "adaptive_volume_control self xs = (xs, calculate_db_level xs)"
  using assms by (auto simp: adaptive_volume_control_def Let_def split: option.splits)

text \<open>
  Claim C6. A chunk whose measured level is at most the ceiling (this includes the level
  \<open>-inf\<close> of silence and of the empty chunk) is returned by the limiter exactly as it
  came, so limiting the limiter's output once more changes nothing.
\<close>

theorem limiter_noop_on_compliant:
  assumes "calculate_db_level xs \<le> Some (MAX_DB self)"
  shows "fst (adaptive_volume_control self xs) = xs
       \<and> adaptive_volume_control self (fst (adaptive_volume_control self xs))
           = adaptive_volume_control self xs"
  using assms by (simp add: avc_compliant)

theorem limiter_noop_on_compliant_witness:
  "calculate_db_level [1 / 100] \<le> Some (MAX_DB init)
   \<and> fst (adaptive_volume_control init [1 / 100]) = [1 / 100]
   \<and> adaptive_volume_control init (fst (adaptive_volume_control init [1 / 100]))
       = adaptive_volume_control init [1 / 100]"
proof -
  have h: "calculate_db_level [1 / 100] \<le> Some (MAX_DB init)"
    by (simp add: level_of_hundredth init_def)
  from limiter_noop_on_compliant [OF h] h show ?thesis by simp
qed

subsection \<open>The branches of the controller\<close>

lemma length_hanning [simp]: "length (hanning M) = M"
  by (simp add: hanning_def)

lemma hanning_Nil_iff [simp]: "hanning M = [] \<longleftrightarrow> M = 0"
  using length_hanning [of M] by (metis length_0_conv)

lemma length_dft [simp]: "length (dft a) = length a"
  by (simp add: dft_def Let_def)

lemma length_idft [simp]: "length (idft a) = length a"
  by (simp add: idft_def Let_def)

lemma length_learned_profile [simp]: "length (learned_profile xs) = length xs"
  by (simp add: learned_profile_def)

lemma length_to_float [simp]: "length (to_float c) = length c"
  by (simp add: to_float_def)

lemma to_float_Nil_iff [simp]: "to_float c = [] \<longleftrightarrow> c = []"
  by (simp add: to_float_def)

lemma length_deque_extend:
  "length d \<le> maxlen \<Longrightarrow> length (deque_extend maxlen d xs) = min maxlen (length d + length xs)"
  by (auto simp: deque_extend_def Let_def)

lemma deque_extend_fits:
  "length d + length xs \<le> maxlen \<Longrightarrow> deque_extend maxlen d xs = d @ xs"
  by (simp add: deque_extend_def Let_def)

lemma process_learning_more:
  assumes "learning_noise s"
    and "noise_buffer_maxlen s = nat (learning_window s)"
    and "int (length (noise_buffer s) + length c) < learning_window s"
  shows "process_audio_chunk filt s c
           = ((meter s c)\<lparr>noise_buffer := noise_buffer s @ to_float c\<rparr>, Inr c)"
proof -
  have "deque_extend (nat (learning_window s)) (noise_buffer s) (to_float c) = noise_buffer s @ to_float c"
    using assms(3) by (intro deque_extend_fits) simp
  thus ?thesis
    using assms by (simp add: process_audio_chunk_def Let_def meter_def learning_window_def)
qed

lemma process_learning_done:
  assumes "learning_noise s"
    and "noise_buffer_maxlen s = nat (learning_window s)"
    and "0 < learning_window s"
    and "length (noise_buffer s) \<le> nat (learning_window s)"
    and "learning_window s \<le> int (length (noise_buffer s) + length c)"
  shows "process_audio_chunk filt s c
           = ((meter s c)\<lparr>noise_buffer := deque_extend (nat (learning_window s)) (noise_buffer s) (to_float c),
                           noise_profile := Some (learned_profile
                              (deque_extend (nat (learning_window s)) (noise_buffer s) (to_float c))),
                           learning_noise := False, noise_learned := True\<rparr>, Inr c)"
proof -
  have len: "length (deque_extend (nat (learning_window s)) (noise_buffer s) (to_float c)) = nat (learning_window s)"
    using assms(3,4,5) by (simp add: length_deque_extend)
  hence ne: "deque_extend (nat (learning_window s)) (noise_buffer s) (to_float c) \<noteq> []"
    using assms(3) by auto
  show ?thesis
    using assms(1,2,3) len ne unfolding learning_window_def
    by (simp add: process_audio_chunk_def Let_def meter_def fft_def learned_profile_def
                  learning_window_def)
qed

lemma process_bypassed:
  assumes "\<not> learning_noise s" and "\<not> processing_enabled s"
  shows "process_audio_chunk filt s c = (meter s c, Inr c)"
  using assms by (simp add: process_audio_chunk_def Let_def meter_def)

lemma process_active_empty:
  assumes "\<not> learning_noise s" and "processing_enabled s"
  shows "process_audio_chunk filt s [] = (meter s [], Inr [])"
  using assms by (simp add: process_audio_chunk_def Let_def meter_def to_float_def to_int16_def)

lemma process_active_mismatch:
  assumes "\<not> learning_noise s" and "processing_enabled s" and "noise_learned s"
    and "noise_profile s = Some p" and "length c \<noteq> length p" and "c \<noteq> []"
  shows "process_audio_chunk filt s c = filter_then_limit filt (meter s c) (to_float c)"
  using assms
  by (simp add: process_audio_chunk_def Let_def meter_def filter_then_limit_def low_pass_filter_def
           split: sum.splits prod.splits)

lemma process_not_learning:
  assumes "\<not> learning_noise s"
  shows "\<not> learning_noise (fst (process_audio_chunk filt s c))
       \<and> noise_profile (fst (process_audio_chunk filt s c)) = noise_profile s
       \<and> noise_learned (fst (process_audio_chunk filt s c)) = noise_learned s
       \<and> noise_buffer (fst (process_audio_chunk filt s c)) = noise_buffer s"
  using assms
  by (simp add: process_audio_chunk_def Let_def split: sum.splits prod.splits option.splits)

lemma process_keeps_config:
  "RATE (fst (process_audio_chunk filt s c)) = RATE s
   \<and> noise_learning_duration (fst (process_audio_chunk filt s c)) = noise_learning_duration s
   \<and> noise_buffer_maxlen (fst (process_audio_chunk filt s c)) = noise_buffer_maxlen s
   \<and> CHUNK (fst (process_audio_chunk filt s c)) = CHUNK s
   \<and> MAX_DB (fst (process_audio_chunk filt s c)) = MAX_DB s
   \<and> processing_enabled (fst (process_audio_chunk filt s c)) = processing_enabled s"
  by (simp add: process_audio_chunk_def Let_def split: sum.splits prod.splits option.splits)

lemma process_keeps_window [simp]:
  "learning_window (fst (process_audio_chunk filt s c)) = learning_window s"
  by (simp add: learning_window_def process_keeps_config)

lemma length_trace [simp]: "length (trace filt s cs) = Suc (length cs)"
  by (induction cs arbitrary: s) auto

lemma trace_0 [simp]: "trace filt s cs ! 0 = s"
  by (cases cs) auto

lemma samples_simps [simp]: "samples [] = 0" "samples (c # cs) = length c + samples cs"
  by (simp_all add: samples_def)

lemma trace_not_learning:
  assumes "\<not> learning_noise s" and "k \<le> length cs"
  shows "\<not> learning_noise (trace filt s cs ! k) \<and> noise_profile (trace filt s cs ! k) = noise_profile s"
  using assms
proof (induction cs arbitrary: s k)
  case Nil
  then show ?case by simp
next
  case (Cons c cs)
  show ?case
  proof (cases k)
    case 0
    with Cons.prems show ?thesis by simp
  next
    case (Suc j)
    with Cons.prems have j: "j \<le> length cs" by simp
    from process_not_learning [OF Cons.prems(1), of filt c]
    have nl: "\<not> learning_noise (fst (process_audio_chunk filt s c))"
      and pr: "noise_profile (fst (process_audio_chunk filt s c)) = noise_profile s" by simp_all
    from Cons.IH [OF nl j] pr Suc show ?thesis by simp
  qed
qed

lemma transitions_not_learning:
  "\<not> learning_noise s \<Longrightarrow> transitions (trace filt s cs) = 0"
proof (induction cs arbitrary: s)
  case Nil
  then show ?case by simp
next
  case (Cons c cs)
  from process_not_learning [OF Cons.prems, of filt c]
  have nl: "\<not> learning_noise (fst (process_audio_chunk filt s c))" by simp
  from Cons.IH [OF nl] Cons.prems show ?case
    by (cases cs) simp_all
qed

lemma collecting_step_more:
  assumes "collecting s" and "int (length (noise_buffer s) + length c) < learning_window s"
  shows "collecting (fst (process_audio_chunk filt s c))"
    and "length (noise_buffer (fst (process_audio_chunk filt s c))) = length (noise_buffer s) + length c"
    and "noise_profile (fst (process_audio_chunk filt s c)) = noise_profile s"
proof -
  from assms have eq: "process_audio_chunk filt s c
           = ((meter s c)\<lparr>noise_buffer := noise_buffer s @ to_float c\<rparr>, Inr c)"
    by (intro process_learning_more) (simp_all add: collecting_def)
  show "collecting (fst (process_audio_chunk filt s c))"
    using assms by (simp add: eq collecting_def meter_def learning_window_def)
  show "length (noise_buffer (fst (process_audio_chunk filt s c))) = length (noise_buffer s) + length c"
    by (simp add: eq)
  show "noise_profile (fst (process_audio_chunk filt s c)) = noise_profile s"
    by (simp add: eq meter_def)
qed

lemma collecting_step_done:
  assumes "collecting s" and "learning_window s \<le> int (length (noise_buffer s) + length c)"
  shows "\<not> learning_noise (fst (process_audio_chunk filt s c))"
    and "\<exists>p. noise_profile (fst (process_audio_chunk filt s c)) = Some p
             \<and> length p = nat (learning_window s)"
proof -
  from assms(1) have pos: "0 < learning_window s"
    by (simp add: collecting_def)
  from assms pos have eq: "process_audio_chunk filt s c
           = ((meter s c)\<lparr>noise_buffer := deque_extend (nat (learning_window s)) (noise_buffer s) (to_float c),
                           noise_profile := Some (learned_profile
                              (deque_extend (nat (learning_window s)) (noise_buffer s) (to_float c))),
                           learning_noise := False, noise_learned := True\<rparr>, Inr c)"
    by (intro process_learning_done) (auto simp: collecting_def)
  show "\<not> learning_noise (fst (process_audio_chunk filt s c))"
    by (simp add: eq)
  have "length (deque_extend (nat (learning_window s)) (noise_buffer s) (to_float c)) = nat (learning_window s)"
    using assms pos by (subst length_deque_extend) (auto simp: collecting_def)
  thus "\<exists>p. noise_profile (fst (process_audio_chunk filt s c)) = Some p
             \<and> length p = nat (learning_window s)"
    by (simp add: eq)
qed

lemma trace_learning_iff:
  assumes "collecting s" and "k \<le> length cs"
  shows "learning_noise (trace filt s cs ! k)
           \<longleftrightarrow> int (length (noise_buffer s) + samples (take k cs)) < learning_window s"
  using assms
proof (induction cs arbitrary: s k)
  case Nil
  then show ?case by (simp add: collecting_def)
next
  case (Cons c cs)
  show ?case
  proof (cases k)
    case 0
    with Cons.prems show ?thesis by (simp add: collecting_def)
  next
    case (Suc j)
    with Cons.prems have j: "j \<le> length cs" by simp
    let ?s' = "fst (process_audio_chunk filt s c)"
    show ?thesis
    proof (cases "int (length (noise_buffer s) + length c) < learning_window s")
      case True
      from collecting_step_more [OF Cons.prems(1) True, of filt]
      have c': "collecting ?s'"
        and len: "length (noise_buffer ?s') = length (noise_buffer s) + length c" by simp_all
      from Cons.IH [OF c' j] len Suc show ?thesis by (simp add: add.assoc)
    next
      case False
      hence reached: "learning_window s \<le> int (length (noise_buffer s) + length c)" by simp
      from collecting_step_done(1) [OF Cons.prems(1) reached, of filt]
      have nl: "\<not> learning_noise ?s'" .
      from trace_not_learning [OF nl j, of filt] reached Suc show ?thesis by simp
    qed
  qed
qed

lemma trace_transitions:
  assumes "collecting s"
  shows "transitions (trace filt s cs)
           = (if learning_window s \<le> int (length (noise_buffer s) + samples cs) then 1 else 0)"
  using assms
proof (induction cs arbitrary: s)
  case Nil
  then show ?case by (simp add: collecting_def)
next
  case (Cons c cs)
  let ?s' = "fst (process_audio_chunk filt s c)"
  have unfold: "transitions (trace filt s (c # cs))
      = (if learning_noise s \<and> \<not> learning_noise ?s' then 1 else 0) + transitions (trace filt ?s' cs)"
    by (cases cs) simp_all
  show ?case
  proof (cases "int (length (noise_buffer s) + length c) < learning_window s")
    case True
    from collecting_step_more [OF Cons.prems True, of filt]
    have c': "collecting ?s'"
      and len: "length (noise_buffer ?s') = length (noise_buffer s) + length c" by simp_all
    from c' have "learning_noise ?s'" by (simp add: collecting_def)
    with Cons.IH [OF c'] len unfold show ?thesis by (simp add: add.assoc)
  next
    case False
    hence reached: "learning_window s \<le> int (length (noise_buffer s) + length c)" by simp
    from collecting_step_done(1) [OF Cons.prems reached, of filt]
    have nl: "\<not> learning_noise ?s'" .
    from Cons.prems have "learning_noise s" by (simp add: collecting_def)
    with transitions_not_learning [OF nl, of filt cs] nl reached unfold show ?thesis by simp
  qed
qed

lemma trace_profile_before:
  assumes "collecting s" and "k \<le> length cs"
    and "int (length (noise_buffer s) + samples (take k cs)) < learning_window s"
  shows "noise_profile (trace filt s cs ! k) = noise_profile s"
  using assms
proof (induction cs arbitrary: s k)
  case Nil
  then show ?case by simp
next
  case (Cons c cs)
  show ?case
  proof (cases k)
    case 0
    then show ?thesis by simp
  next
    case (Suc j)
    with Cons.prems have j: "j \<le> length cs" by simp
    let ?s' = "fst (process_audio_chunk filt s c)"
    from Cons.prems(3) Suc have more: "int (length (noise_buffer s) + length c) < learning_window s"
      by simp
    from collecting_step_more [OF Cons.prems(1) more, of filt]
    have c': "collecting ?s'"
      and len: "length (noise_buffer ?s') = length (noise_buffer s) + length c"
      and pr: "noise_profile ?s' = noise_profile s" by simp_all
    from Cons.prems(3) Suc len
    have "int (length (noise_buffer ?s') + samples (take j cs)) < learning_window ?s'"
      by (simp add: add.assoc)
    from Cons.IH [OF c' j this] pr Suc show ?thesis by simp
  qed
qed

lemma trace_profile_after:
  assumes "collecting s" and "k \<le> j" and "j \<le> length cs"
    and "learning_window s \<le> int (length (noise_buffer s) + samples (take k cs))"
  shows "noise_profile (trace filt s cs ! j) = noise_profile (trace filt s cs ! k)
       \<and> (\<exists>p. noise_profile (trace filt s cs ! k) = Some p \<and> length p = nat (learning_window s))"
  using assms
proof (induction cs arbitrary: s k j)
  case Nil
  then show ?case by (simp add: collecting_def)
next
  case (Cons c cs)
  show ?case
  proof (cases k)
    case 0
    with Cons.prems show ?thesis by (simp add: collecting_def)
  next
    case (Suc k')
    with Cons.prems obtain j' where j': "j = Suc j'" "k' \<le> j'" "j' \<le> length cs"
      by (cases j) auto
    let ?s' = "fst (process_audio_chunk filt s c)"
    show ?thesis
    proof (cases "int (length (noise_buffer s) + length c) < learning_window s")
      case True
      from collecting_step_more [OF Cons.prems(1) True, of filt]
      have c': "collecting ?s'"
        and len: "length (noise_buffer ?s') = length (noise_buffer s) + length c" by simp_all
      from Cons.prems(4) Suc len
      have "learning_window ?s' \<le> int (length (noise_buffer ?s') + samples (take k' cs))"
        by (simp add: add.assoc)
      from Cons.IH [OF c' j'(2,3) this] Suc j'(1) show ?thesis by simp
    next
      case False
      hence reached: "learning_window s \<le> int (length (noise_buffer s) + length c)" by simp
      from collecting_step_done [OF Cons.prems(1) reached, of filt]
      have nl: "\<not> learning_noise ?s'"
        and pr: "\<exists>p. noise_profile ?s' = Some p \<and> length p = nat (learning_window s)" by simp_all
      from j' have k'l: "k' \<le> length cs" by simp
      from trace_not_learning [OF nl k'l, of filt] trace_not_learning [OF nl j'(3), of filt] pr Suc j'(1)
      show ?thesis by simp
    qed
  qed
qed

lemma learning_window_init [simp]: "learning_window init = 132300"
  by (simp add: learning_window_def init_def int_trunc_def)

lemma init_fields [simp]:
  "learning_noise init" "noise_buffer init = []" "noise_buffer_maxlen init = 132300"
  "RATE init = 44100" "CHUNK init = 1024" "MAX_DB init = 70" "processing_enabled init"
  "noise_profile init = None" "\<not> noise_learned init" "max_db_recorded init = Some 0"
  "processed_db init = None"
  by (simp_all add: init_def int_trunc_def)

lemma collecting_init: "collecting init"
  by (simp add: collecting_def)

lemma learned_eq:
  "learned = (meter init (replicate 132300 0))\<lparr>
      noise_buffer := deque_extend 132300 [] (to_float (replicate 132300 0)),
      noise_profile := Some (learned_profile (deque_extend 132300 [] (to_float (replicate 132300 0)))),
      learning_noise := False, noise_learned := True\<rparr>"
  using process_learning_done [of init "replicate 132300 0" unfiltered]
  by (simp add: learned_def)

lemma learned_fields [simp]:
  "\<not> learning_noise learned" "noise_learned learned" "processing_enabled learned"
  "RATE learned = 44100" "CHUNK learned = 1024" "MAX_DB learned = 70" "processed_db learned = None"
  by (simp_all add: learned_eq meter_def)

lemma learned_profile_length:
  "\<exists>p. noise_profile learned = Some p \<and> length p = 132300"
  by (simp add: learned_eq length_deque_extend)

lemma reachable_learned: "reachable filt learned"
proof -
  have "process_audio_chunk filt init (replicate 132300 0) = process_audio_chunk unfiltered init (replicate 132300 0)"
    using process_learning_done [of init "replicate 132300 0" unfiltered]
          process_learning_done [of init "replicate 132300 0" filt] by simp
  hence "learned = fst (process_audio_chunk filt init (replicate 132300 0))"
    by (simp add: learned_def)
  thus ?thesis
    using reachable_chunk [OF reachable_init, of filt "replicate 132300 0"] by simp
qed

subsection \<open>Learning, then active\<close>

lemma samples_replicate [simp]: "samples (replicate n c) = n * length c"
  by (simp add: samples_def sum_list_replicate)

text \<open>
  Claim C2. Take a processor in the learning phase with an empty buffer whose deque bound
  is its learning window \<open>int(RATE * noise_learning_duration)\<close>, as the new processor is,
  and any sequence of chunks. After \<open>k\<close> calls the processor is still learning exactly
  when fewer samples than the window have arrived; the calls that switch learning off
  number one if the sequence reaches the window and none otherwise; before the switch the
  profile is the initial one, and from the switch on it is one fixed array whose length is
  the window.
\<close>

theorem learning_to_active_exactly_once:
  assumes "learning_noise s" and "noise_buffer s = []"
    and "noise_buffer_maxlen s = nat (learning_window s)" and "0 < learning_window s"
  shows "(\<forall>k\<le>length cs. learning_noise (trace filt s cs ! k)
              \<longleftrightarrow> int (samples (take k cs)) < learning_window s)
       \<and> transitions (trace filt s cs) = (if learning_window s \<le> int (samples cs) then 1 else 0)
       \<and> (\<forall>k\<le>length cs. int (samples (take k cs)) < learning_window s
              \<longrightarrow> noise_profile (trace filt s cs ! k) = noise_profile s)
       \<and> (\<forall>k j. k \<le> j \<and> j \<le> length cs \<and> learning_window s \<le> int (samples (take k cs))
              \<longrightarrow> noise_profile (trace filt s cs ! j) = noise_profile (trace filt s cs ! k)
                \<and> (\<exists>p. noise_profile (trace filt s cs ! k) = Some p
                         \<and> int (length p) = learning_window s))"
proof -
  from assms have c: "collecting s" by (simp add: collecting_def)
  have 1: "\<forall>k\<le>length cs. learning_noise (trace filt s cs ! k)
              \<longleftrightarrow> int (samples (take k cs)) < learning_window s"
    using trace_learning_iff [OF c, of _ cs filt] assms(2) by simp
  have 2: "transitions (trace filt s cs) = (if learning_window s \<le> int (samples cs) then 1 else 0)"
    using trace_transitions [OF c, of filt cs] assms(2) by simp
  have 3: "\<forall>k\<le>length cs. int (samples (take k cs)) < learning_window s
              \<longrightarrow> noise_profile (trace filt s cs ! k) = noise_profile s"
    using trace_profile_before [OF c, of _ cs filt] assms(2) by simp
  have 4: "\<forall>k j. k \<le> j \<and> j \<le> length cs \<and> learning_window s \<le> int (samples (take k cs))
              \<longrightarrow> noise_profile (trace filt s cs ! j) = noise_profile (trace filt s cs ! k)
                \<and> (\<exists>p. noise_profile (trace filt s cs ! k) = Some p
                         \<and> int (length p) = learning_window s)"
  proof (intro allI impI)
    fix k j
    assume h: "k \<le> j \<and> j \<le> length cs \<and> learning_window s \<le> int (samples (take k cs))"
    hence "learning_window s \<le> int (length (noise_buffer s) + samples (take k cs))"
      using assms(2) by simp
    from trace_profile_after [OF c _ _ this, of j filt] h assms(4)
    show "noise_profile (trace filt s cs ! j) = noise_profile (trace filt s cs ! k)
                \<and> (\<exists>p. noise_profile (trace filt s cs ! k) = Some p
                         \<and> int (length p) = learning_window s)"
      by auto
  qed
  from 1 2 3 4 show ?thesis by blast
qed

theorem learning_to_active_exactly_once_witness:
  "learning_noise init \<and> noise_buffer init = []
   \<and> noise_buffer_maxlen init = nat (learning_window init) \<and> 0 < learning_window init
   \<and> learning_noise (trace unfiltered init (replicate 130 (replicate 1024 0)) ! 129)
   \<and> \<not> learning_noise (trace unfiltered init (replicate 130 (replicate 1024 0)) ! 130)
   \<and> transitions (trace unfiltered init (replicate 130 (replicate 1024 0))) = 1
   \<and> noise_profile (trace unfiltered init (replicate 130 (replicate 1024 0)) ! 129) = None
   \<and> (\<exists>p. noise_profile (trace unfiltered init (replicate 130 (replicate 1024 0)) ! 130) = Some p
          \<and> length p = 132300)"
proof -
  let ?cs = "replicate 130 (replicate 1024 (0::16 word))"
  have h: "learning_noise init" "noise_buffer init = []"
    "noise_buffer_maxlen init = nat (learning_window init)" "0 < learning_window init"
    by simp_all
  note t = learning_to_active_exactly_once [OF h, of ?cs unfiltered]
  from t have a: "\<forall>k\<le>length ?cs. learning_noise (trace unfiltered init ?cs ! k)
              \<longleftrightarrow> int (samples (take k ?cs)) < learning_window init" by blast
  from t have b: "transitions (trace unfiltered init ?cs) = (if learning_window init \<le> int (samples ?cs) then 1 else 0)"
    by blast
  from t have c: "\<forall>k\<le>length ?cs. int (samples (take k ?cs)) < learning_window init
              \<longrightarrow> noise_profile (trace unfiltered init ?cs ! k) = noise_profile init" by blast
  from t have d: "\<forall>k j. k \<le> j \<and> j \<le> length ?cs \<and> learning_window init \<le> int (samples (take k ?cs))
              \<longrightarrow> noise_profile (trace unfiltered init ?cs ! j) = noise_profile (trace unfiltered init ?cs ! k)
                \<and> (\<exists>p. noise_profile (trace unfiltered init ?cs ! k) = Some p
                         \<and> int (length p) = learning_window init)" by blast
  from a [rule_format, of 129] have 1: "learning_noise (trace unfiltered init ?cs ! 129)" by simp
  from a [rule_format, of 130] have 2: "\<not> learning_noise (trace unfiltered init ?cs ! 130)" by simp
  from b have 3: "transitions (trace unfiltered init ?cs) = 1" by simp
  from c [rule_format, of 129] have 4: "noise_profile (trace unfiltered init ?cs ! 129) = None" by simp
  from d [rule_format, of 130 130]
  have 5: "\<exists>p. noise_profile (trace unfiltered init ?cs ! 130) = Some p \<and> length p = 132300" by simp
  from h 1 2 3 4 5 show ?thesis by blast
qed

subsection \<open>The recorded maximum\<close>

lemma process_max_db:
  "max_db_recorded (fst (process_audio_chunk filt s c))
     = max (max_db_recorded s) (calculate_db_level (to_float c))"
  by (simp add: process_audio_chunk_def Let_def split: sum.splits prod.splits option.splits)

lemma trace_max_db_lower:
  "\<forall>t \<in> set (trace filt s cs). max_db_recorded s \<le> max_db_recorded t"
proof (induction cs arbitrary: s)
  case Nil
  show ?case by simp
next
  case (Cons c cs)
  have "max_db_recorded s \<le> max_db_recorded (fst (process_audio_chunk filt s c))"
    by (simp add: process_max_db)
  with Cons [of "fst (process_audio_chunk filt s c)"] show ?case
    by (auto intro: order_trans)
qed

lemma trace_max_db_sorted: "sorted (map max_db_recorded (trace filt s cs))"
proof (induction cs arbitrary: s)
  case Nil
  show ?case by simp
next
  case (Cons c cs)
  have "\<forall>t \<in> set (trace filt (fst (process_audio_chunk filt s c)) cs).
          max_db_recorded s \<le> max_db_recorded t"
    using trace_max_db_lower [of filt "fst (process_audio_chunk filt s c)" cs]
    by (auto simp: process_max_db intro: order_trans max.coboundedI1)
  with Cons [of "fst (process_audio_chunk filt s c)"] show ?case by simp
qed

text \<open>
  Claim C10. Every call, whatever the phase and whether or not it raises, leaves
  \<^verbatim>\<open>max_db_recorded\<close> at the larger of its old value and the level measured on the chunk
  as it came in, before any stage has touched it; so the value never goes down from one
  call to the next, and along a whole session it is non-decreasing.
\<close>

theorem max_db_recorded_tracks_input:
  "max_db_recorded (fst (process_audio_chunk filt s c))
     = max (max_db_recorded s) (calculate_db_level (to_float c))
   \<and> max_db_recorded s \<le> max_db_recorded (fst (process_audio_chunk filt s c))
   \<and> sorted (map max_db_recorded (trace filt s cs))"
  by (simp add: process_max_db trace_max_db_sorted)

lemma to_float_minus_one: "to_float [- 32768] = [- 1]"
  by (simp add: to_float_def)

lemma level_of_minus_one: "calculate_db_level [- 1] = Some 94"
  by (simp add: calculate_db_level_def Let_def)

lemma to_float_silence: "to_float (replicate n 0) = replicate n 0"
  by (simp add: to_float_def)

lemma level_of_silence: "calculate_db_level (replicate n 0) = None"
proof -
  have "sum_list (map (\<lambda>x. x\<^sup>2) (replicate n (0::real))) = 0"
    by (induction n) simp_all
  thus ?thesis by (simp add: calculate_db_level_def Let_def)
qed

lemma learned_max_db [simp]: "max_db_recorded learned = Some 0"
  by (simp add: learned_eq meter_def to_float_silence level_of_silence)

theorem max_db_recorded_tracks_input_witness:
  "max_db_recorded (fst (process_audio_chunk unfiltered init [- 32768])) = Some 94
   \<and> max_db_recorded (fst (process_audio_chunk unfiltered learned [- 32768])) = Some 94
   \<and> max_db_recorded (fst (process_audio_chunk unfiltered (learned\<lparr>processing_enabled := False\<rparr>) [- 32768]))
       = Some 94
   \<and> sorted (map max_db_recorded (trace unfiltered init [ [- 32768], [0], [- 32768] ]))"
proof -
  have 1: "max_db_recorded (fst (process_audio_chunk unfiltered init [- 32768])) = Some 94"
    using max_db_recorded_tracks_input [of unfiltered init "[- 32768]" "[]"]
    by (simp add: to_float_minus_one level_of_minus_one)
  have 2: "max_db_recorded (fst (process_audio_chunk unfiltered learned [- 32768])) = Some 94"
    using max_db_recorded_tracks_input [of unfiltered learned "[- 32768]" "[]"]
    by (simp add: to_float_minus_one level_of_minus_one)
  have 3: "max_db_recorded (fst (process_audio_chunk unfiltered (learned\<lparr>processing_enabled := False\<rparr>) [- 32768]))
       = Some 94"
    using max_db_recorded_tracks_input [of unfiltered "learned\<lparr>processing_enabled := False\<rparr>" "[- 32768]" "[]"]
    by (simp add: to_float_minus_one level_of_minus_one)
  have 4: "sorted (map max_db_recorded (trace unfiltered init [ [- 32768], [0], [- 32768] ]))"
    using max_db_recorded_tracks_input [of unfiltered init "[]" "[ [- 32768], [0], [- 32768] ]"]
    by blast
  from 1 2 3 4 show ?thesis by blast
qed

subsection \<open>Chunks that do not fit the profile\<close>

lemma low_pass_filter_ok:
  assumes "16000 < RATE s" and "15 < length xs"
  shows "low_pass_filter filt s xs 8000 = Inr (filt (8000 / (real (RATE s) / 2)) xs)"
  using assms by (simp add: low_pass_filter_def Let_def)

lemma low_pass_filter_short:
  assumes "16000 < RATE s" and "length xs \<le> 15"
  shows "low_pass_filter filt s xs 8000 = Inl ValueError"
  using assms by (simp add: low_pass_filter_def Let_def)

lemma meter_fields [simp]:
  "RATE (meter s c) = RATE s" "MAX_DB (meter s c) = MAX_DB s" "CHUNK (meter s c) = CHUNK s"
  "processed_db (meter s c) = processed_db s" "noise_profile (meter s c) = noise_profile s"
  "learning_noise (meter s c) = learning_noise s" "noise_learned (meter s c) = noise_learned s"
  "processing_enabled (meter s c) = processing_enabled s"
  by (simp_all add: meter_def)

text \<open>
  Claim C3, as the code has it. The test for equal lengths is made by
  \<^verbatim>\<open>process_audio_chunk\<close>, not by \<^verbatim>\<open>spectral_subtraction\<close>. In the active phase, with a
  rate above 16 kHz, a chunk of more than 15 samples whose length differs from the
  profile's is not subtracted from: the filter runs on the chunk as converted and returns,
  and the limiter runs on what the filter returns. An empty chunk passes none of the three
  stages.
\<close>

theorem mismatch_skips_subtraction:
  assumes "\<not> learning_noise s" and "processing_enabled s" and "noise_learned s"
    and "noise_profile s = Some p" and "length c \<noteq> length p" and "16000 < RATE s"
  shows "(15 < length c \<longrightarrow>
            process_audio_chunk filt s c = filter_then_limit filt (meter s c) (to_float c)
          \<and> low_pass_filter filt (meter s c) (to_float c) 8000
              = Inr (filt (8000 / (real (RATE s) / 2)) (to_float c)))
       \<and> (c = [] \<longrightarrow> process_audio_chunk filt s c = (meter s c, Inr []))"
proof (intro conjI impI)
  assume long: "15 < length c"
  hence "c \<noteq> []" by auto
  from process_active_mismatch [OF assms(1,2,3,4,5) this]
  show "process_audio_chunk filt s c = filter_then_limit filt (meter s c) (to_float c)" .
  from long assms(6)
  show "low_pass_filter filt (meter s c) (to_float c) 8000
              = Inr (filt (8000 / (real (RATE s) / 2)) (to_float c))"
    using low_pass_filter_ok [of "meter s c" "to_float c" filt] by simp
next
  assume "c = []"
  with process_active_empty [OF assms(1,2)]
  show "process_audio_chunk filt s c = (meter s c, Inr [])" by simp
qed

lemma learned_profile_eq:
  "noise_profile learned = Some (learned_profile (replicate 132300 0))"
  by (simp add: learned_eq deque_extend_fits to_float_silence)

theorem mismatch_skips_subtraction_witness:
  "\<not> learning_noise learned \<and> processing_enabled learned \<and> noise_learned learned
   \<and> noise_profile learned = Some (learned_profile (replicate 132300 0))
   \<and> length (replicate 1024 (0::16 word)) \<noteq> length (learned_profile (replicate 132300 0))
   \<and> length ([] :: 16 word list) \<noteq> length (learned_profile (replicate 132300 0))
   \<and> 16000 < RATE learned \<and> 15 < length (replicate 1024 (0::16 word))
   \<and> process_audio_chunk unfiltered learned (replicate 1024 0)
        = filter_then_limit unfiltered (meter learned (replicate 1024 0)) (to_float (replicate 1024 0))
   \<and> low_pass_filter unfiltered (meter learned (replicate 1024 0)) (to_float (replicate 1024 0)) 8000
        = Inr (unfiltered (8000 / (real (RATE learned) / 2)) (to_float (replicate 1024 0)))
   \<and> process_audio_chunk unfiltered learned [] = (meter learned [], Inr [])"
proof -
  have h: "\<not> learning_noise learned" "processing_enabled learned" "noise_learned learned"
    "noise_profile learned = Some (learned_profile (replicate 132300 0))"
    by (simp_all add: learned_profile_eq)
  have l: "length (replicate 1024 (0::16 word)) \<noteq> length (learned_profile (replicate 132300 0))"
    and e: "length ([] :: 16 word list) \<noteq> length (learned_profile (replicate 132300 0))"
    and r: "16000 < RATE learned"
    by simp_all
  from mismatch_skips_subtraction [OF h l r, of unfiltered]
       mismatch_skips_subtraction [OF h e r, of unfiltered] h l e r
  show ?thesis by simp
qed

lemma spectral_subtraction_mismatch:
  assumes "64 \<le> length xs" and "length ns \<noteq> length xs" and "length ns \<noteq> 1"
  shows "spectral_subtraction s xs (Some ns) = Inl ValueError"
  using assms by (simp add: spectral_subtraction_def fft_def Let_def)

text \<open>
  Claim C3 as stated fails twice. Called with 64 samples and the learned profile of
  132300 values, \<^verbatim>\<open>spectral_subtraction\<close> raises instead of handing the chunk back; and
  on the empty chunk, whose length differs from the profile's too, the active processor
  runs neither filter nor limiter: \<^verbatim>\<open>processed_db\<close> is not assigned, and the result is
  not what the two stages give.
\<close>

theorem mismatch_counterexample:
  "noise_profile learned = Some (learned_profile (replicate 132300 0))
   \<and> length (replicate 64 (0::real)) \<noteq> length (learned_profile (replicate 132300 0))
   \<and> spectral_subtraction learned (replicate 64 0) (noise_profile learned) = Inl ValueError
   \<and> length ([] :: 16 word list) \<noteq> length (learned_profile (replicate 132300 0))
   \<and> process_audio_chunk unfiltered learned [] = (meter learned [], Inr [])
   \<and> processed_db (fst (process_audio_chunk unfiltered learned [])) = None
   \<and> process_audio_chunk unfiltered learned []
        \<noteq> filter_then_limit unfiltered (meter learned []) (to_float [])"
proof -
  have 1: "spectral_subtraction learned (replicate 64 0) (noise_profile learned) = Inl ValueError"
    by (simp add: learned_profile_eq spectral_subtraction_mismatch)
  have 2: "process_audio_chunk unfiltered learned [] = (meter learned [], Inr [])"
    by (simp add: process_active_empty)
  have 3: "filter_then_limit unfiltered (meter learned []) (to_float []) = (meter learned [], Inl ValueError)"
    by (simp add: filter_then_limit_def low_pass_filter_short)
  from 1 2 3 show ?thesis by (simp add: learned_profile_eq)
qed

lemma process_active_short:
  assumes "\<not> learning_noise s" and "processing_enabled s" and "noise_learned s"
    and "noise_profile s = Some p" and "length c \<noteq> length p" and "16000 < RATE s"
    and "c \<noteq> []" and "length c \<le> 15"
  shows "process_audio_chunk filt s c = (meter s c, Inl ValueError)"
  using process_active_mismatch [OF assms(1,2,3,4,5,7), of filt] assms(6,8)
  by (simp add: filter_then_limit_def low_pass_filter_short)

text \<open>
  Claim C7 fails in the active phase on a chunk of 1 to 15 samples: \<^verbatim>\<open>filtfilt\<close>
  needs more samples than its padding and the call ends in \<^verbatim>\<open>ValueError\<close>.
\<close>

theorem short_chunk_raises:
  "process_audio_chunk unfiltered learned [0] = (meter learned [0], Inl ValueError)
   \<and> process_audio_chunk unfiltered learned (replicate 15 0)
        = (meter learned (replicate 15 0), Inl ValueError)"
  by (simp add: process_active_short [where p = "learned_profile (replicate 132300 0)"]
                learned_profile_eq)

subsection \<open>The default session\<close>

lemma default_window: "RATE s = 44100 \<Longrightarrow> noise_learning_duration s = 3 \<Longrightarrow> learning_window s = 132300"
  by (simp add: learning_window_def int_trunc_def)

lemma default_session_init: "default_session init"
  by (simp add: default_session_def init_def int_trunc_def)

lemma default_session_chunk:
  assumes "default_session s"
  shows "default_session (fst (process_audio_chunk filt s c))"
proof (cases "learning_noise s")
  case False
  from process_not_learning [OF False, of filt c] process_keeps_config [of filt s c] assms False
  show ?thesis by (simp add: default_session_def)
next
  case True
  from assms have w: "learning_window s = 132300"
    by (simp add: default_session_def default_window)
  from assms True w have col: "collecting s"
    by (simp add: collecting_def default_session_def)
  show ?thesis
  proof (cases "int (length (noise_buffer s) + length c) < learning_window s")
    case True
    from collecting_step_more [OF col True, of filt] process_keeps_config [of filt s c] assms w True
    show ?thesis by (simp add: default_session_def collecting_def)
  next
    case False
    hence "learning_window s \<le> int (length (noise_buffer s) + length c)" by simp
    from collecting_step_done [OF col this, of filt] process_keeps_config [of filt s c]
         process_learning_done [of s c filt] assms w True False
    show ?thesis by (auto simp: default_session_def)
  qed
qed

lemma default_session_reachable: "reachable filt s \<Longrightarrow> default_session s"
proof (induction rule: reachable.induct)
  case reachable_init
  show ?case by (rule default_session_init)
next
  case (reachable_chunk s c)
  then show ?case by (simp add: default_session_chunk)
next
  case (reachable_flag s b)
  then show ?case by (simp add: default_session_def)
qed

text \<open>
  Claim C9. In a session that starts from the new processor, every processor that has left
  the learning phase holds a profile of 132300 values. A chunk of \<^verbatim>\<open>CHUNK\<close> = 1024
  samples never has that length, so the call does not subtract: with processing enabled
  it is the filter (which returns) followed by the limiter, and otherwise the chunk comes
  back as it is.
\<close>

theorem default_profile_never_matches_chunk:
  assumes "reachable filt s" and "\<not> learning_noise s" and "length c = CHUNK s"
  shows "(\<exists>p. noise_profile s = Some p \<and> length p = 132300 \<and> length c \<noteq> length p)
       \<and> length c = 1024
       \<and> process_audio_chunk filt s c
           = (if processing_enabled s then filter_then_limit filt (meter s c) (to_float c)
              else (meter s c, Inr c))
       \<and> low_pass_filter filt (meter s c) (to_float c) 8000
           = Inr (filt (8000 / 22050) (to_float c))"
proof -
  from default_session_reachable [OF assms(1)] have d: "default_session s" .
  with assms(2) obtain p where p: "noise_profile s = Some p" "length p = 132300"
    and nl: "noise_learned s" and rate: "RATE s = 44100" and chunk: "CHUNK s = 1024"
    by (auto simp: default_session_def split: option.splits)
  from assms(3) chunk have len: "length c = 1024" by simp
  hence ne: "c \<noteq> []" by auto
  have a: "process_audio_chunk filt s c
           = (if processing_enabled s then filter_then_limit filt (meter s c) (to_float c)
              else (meter s c, Inr c))"
  proof (cases "processing_enabled s")
    case True
    from process_active_mismatch [OF assms(2) True nl p(1) _ ne, of filt] len p(2) True
    show ?thesis by simp
  next
    case False
    from process_bypassed [OF assms(2) False, of filt c] False show ?thesis by simp
  qed
  have b: "low_pass_filter filt (meter s c) (to_float c) 8000 = Inr (filt (8000 / 22050) (to_float c))"
    using low_pass_filter_ok [of "meter s c" "to_float c" filt] rate len by simp
  from p len a b show ?thesis by simp
qed

theorem default_profile_never_matches_chunk_witness:
  "reachable unfiltered learned \<and> \<not> learning_noise learned
   \<and> length (replicate 1024 (0::16 word)) = CHUNK learned
   \<and> noise_profile learned = Some (learned_profile (replicate 132300 0))
   \<and> length (learned_profile (replicate 132300 0)) = 132300
   \<and> process_audio_chunk unfiltered learned (replicate 1024 0)
        = filter_then_limit unfiltered (meter learned (replicate 1024 0)) (to_float (replicate 1024 0))
   \<and> low_pass_filter unfiltered (meter learned (replicate 1024 0)) (to_float (replicate 1024 0)) 8000
        = Inr (unfiltered (8000 / 22050) (to_float (replicate 1024 0)))"
proof -
  have h: "reachable unfiltered learned" "\<not> learning_noise learned"
    "length (replicate 1024 (0::16 word)) = CHUNK learned"
    by (simp_all add: reachable_learned)
  from default_profile_never_matches_chunk [OF h] h show ?thesis
    by (simp add: learned_profile_eq)
qed

subsection \<open>Calls that return\<close>

text \<open>
  In a session that starts from the new processor, a call with an empty chunk or with
  more than 15 samples returns a chunk in every phase; the chunks of 1 to 15 samples in
  the active phase are the only ones that end in an exception.
\<close>

lemma spectral_subtraction_returns:
  assumes "length ns = length xs"
  shows "\<exists>ys. spectral_subtraction s xs (Some ns) = Inr ys \<and> length ys = length xs"
proof (cases "length xs < 64")
  case True
  thus ?thesis by (simp add: spectral_subtraction_def)
next
  case False
  hence ne: "xs \<noteq> []" by auto
  define F where "F = dft (map complex_of_real (map2 (*) xs (hanning (length xs))))"
  define E where "E = map2 (\<lambda>m p. complex_of_real m * cis p)
      (map2 max (map2 (-) (map cmod F) (map (\<lambda>v. noise_reduction_factor s * v) ns))
                (map (\<lambda>v. 0.1 * v) (map cmod F)))
      (map angle F)"
  have lF: "length F = length xs" by (simp add: F_def)
  have lE: "length E = length xs" using assms lF by (simp add: E_def)
  have f: "fft (map complex_of_real (map2 (*) xs (hanning (length xs)))) = Inr F"
    using ne by (simp add: fft_def F_def)
  have same: "length (map (\<lambda>v. noise_reduction_factor s * v) ns) = length (map cmod F)"
    using assms lF by simp
  have i: "ifft E = Inr (idft E)"
    using ne lE by (auto simp: ifft_def)
  have "spectral_subtraction s xs (Some ns) = Inr (map Re (idft E))"
    unfolding spectral_subtraction_def Let_def
    by (simp only: option.case False if_False f sum.case same simp_thms if_True
                   E_def [symmetric] i)
  thus ?thesis using lE by simp
qed

lemma other_chunks_return:
  assumes "reachable filt s" and "c = [] \<or> 15 < length c"
  shows "\<exists>out. snd (process_audio_chunk filt s c) = Inr out"
proof -
  from default_session_reachable [OF assms(1)] have d: "default_session s" .
  hence rate: "RATE s = 44100" by (simp add: default_session_def)
  show ?thesis
  proof (cases "learning_noise s")
    case True
    from d have w: "learning_window s = 132300"
      by (simp add: default_session_def default_window)
    from d True w have col: "collecting s"
      by (simp add: collecting_def default_session_def)
    show ?thesis
    proof (cases "int (length (noise_buffer s) + length c) < learning_window s")
      case True
      from process_learning_more [of s c filt] col True show ?thesis
        by (simp add: collecting_def)
    next
      case False
      from process_learning_done [of s c filt] col False w show ?thesis
        by (simp add: collecting_def)
    qed
  next
    case False
    note nl = this
    show ?thesis
    proof (cases "processing_enabled s")
      case False
      from process_bypassed [OF nl False, of filt c] show ?thesis by simp
    next
      case True
      show ?thesis
      proof (cases "c = []")
        case True
        from process_active_empty [OF nl \<open>processing_enabled s\<close>, of filt] True show ?thesis by simp
      next
        case False
        with assms(2) have long: "15 < length c" by simp
        from d nl obtain p where p: "noise_profile s = Some p" "length p = 132300"
          and learned: "noise_learned s"
          by (auto simp: default_session_def split: option.splits)
        show ?thesis
        proof (cases "length c = length p")
          case False
          from process_active_mismatch [OF nl True learned p(1) False \<open>c \<noteq> []\<close>, of filt]
               low_pass_filter_ok [of "meter s c" "to_float c" filt] rate long
          show ?thesis by (simp add: filter_then_limit_def)
        next
          case True
          from spectral_subtraction_returns [of p "to_float c" "meter s c"] True
          obtain ys where ys: "spectral_subtraction (meter s c) (to_float c) (Some p) = Inr ys"
            "length ys = length c" by auto
          from low_pass_filter_ok [of "meter s c" ys filt] rate long ys(2)
          have lp: "low_pass_filter filt (meter s c) ys 8000 = Inr (filt (8000 / (real (RATE (meter s c)) / 2)) ys)"
            by simp
          from nl \<open>processing_enabled s\<close> learned \<open>c \<noteq> []\<close> p(1) True ys(1) lp
          show ?thesis
            by (simp add: process_audio_chunk_def Let_def meter_def split: prod.splits)
        qed
      qed
    qed
  qed
qed

subsection \<open>The level the limiter returns\<close>

lemma avc_returns_input_level: "snd (adaptive_volume_control s xs) = calculate_db_level xs"
  by (simp add: adaptive_volume_control_def Let_def split: option.splits)

lemma level_of_full_scale: "0 < n \<Longrightarrow> calculate_db_level (replicate n (- 1)) = Some 94"
proof -
  assume n: "0 < n"
  have "sum_list (map (\<lambda>x. x\<^sup>2) (replicate n (- 1 :: real))) = real n"
    by (induction n) simp_all
  with n show ?thesis by (simp add: calculate_db_level_def Let_def)
qed

text \<open>
  Claim C4 fails: the second component the limiter returns is always the level measured
  before limiting. On 1024 samples at full scale it returns 94 dB together with a chunk
  whose level is at most the ceiling of 70 dB.
\<close>

theorem limiter_returns_input_level:
  "snd (adaptive_volume_control init (replicate 1024 (- 1))) = Some 94
   \<and> calculate_db_level (replicate 1024 (- 1)) = Some 94
   \<and> calculate_db_level (fst (adaptive_volume_control init (replicate 1024 (- 1)))) \<le> Some 70
   \<and> snd (adaptive_volume_control init (replicate 1024 (- 1)))
        \<noteq> calculate_db_level (fst (adaptive_volume_control init (replicate 1024 (- 1))))"
proof -
  have lvl: "calculate_db_level (replicate 1024 (- 1)) = Some 94"
    by (simp add: level_of_full_scale)
  have ret: "snd (adaptive_volume_control init (replicate 1024 (- 1))) = Some 94"
    by (simp add: avc_returns_input_level lvl)
  have "calculate_db_level (map (\<lambda>x. tanh (x * 0.8) * 0.8)
          (map (\<lambda>x. x * db_to_linear (- (94 - 70))) (replicate 1024 (- 1)))) \<le> Some 70"
    by (rule limiter_level_bound [OF lvl]) simp
  hence out: "calculate_db_level (fst (adaptive_volume_control init (replicate 1024 (- 1)))) \<le> Some 70"
    by (simp add: adaptive_volume_control_def lvl init_def Let_def)
  have "\<not> (Some 94 :: db) \<le> Some 70" by simp
  with out have ne: "calculate_db_level (fst (adaptive_volume_control init (replicate 1024 (- 1)))) \<noteq> Some 94"
    by metis
  from lvl ret out ne show ?thesis by simp
qed

subsection \<open>Conversion to int16\<close>

lemma int_trunc_bounds:
  assumes "- 32768 \<le> y" and "y \<le> 32767"
  shows "- 32768 \<le> int_trunc y \<and> int_trunc y \<le> 32767"
  using assms by (auto simp: int_trunc_def le_floor_iff floor_le_iff ceiling_le_iff le_ceiling_iff)

lemma astype_int16_exact:
  assumes "- 32768 \<le> y" and "y \<le> 32767"
  shows "sint (astype_int16 y) = int_trunc y"
proof -
  from int_trunc_bounds [OF assms]
  have "signed_take_bit 15 (int_trunc y) = int_trunc y"
    by (intro signed_take_bit_int_eq_self) simp_all
  thus ?thesis by (simp add: astype_int16_def sint_sbintrunc')
qed

lemma clip_bounds: "lo \<le> hi \<Longrightarrow> lo \<le> clip x lo hi \<and> clip x lo hi \<le> hi"
  by (simp add: clip_def)

lemma clip_id: "lo \<le> x \<Longrightarrow> x \<le> hi \<Longrightarrow> clip x lo hi = x"
  by (simp add: clip_def)

lemma to_int16_exact:
  "map sint (to_int16 ys) = map (\<lambda>x. int_trunc (min (max (x * 32768) (- 32768)) 32767)) ys"
proof -
  have "sint (astype_int16 (clip (x * 32768) (- 32768) 32767))
          = int_trunc (min (max (x * 32768) (- 32768)) 32767)" for x :: real
    using clip_bounds [of "- 32768" 32767 "x * 32768"] astype_int16_exact [of "clip (x * 32768) (- 32768) 32767"]
    by (simp add: clip_def)
  thus ?thesis by (simp add: to_int16_def)
qed

lemma clamped_sample_range:
  "- 32768 \<le> int_trunc (min (max (x * 32768) (- 32768)) 32767)
   \<and> int_trunc (min (max (x * 32768) (- 32768)) 32767) \<le> 32767"
  by (rule int_trunc_bounds) simp_all

lemma process_active_stages:
  assumes "\<not> learning_noise s" and "processing_enabled s" and "noise_learned s" and "c \<noteq> []"
    and "noise_profile s = Some p"
    and "(if length (to_float c) = length p
          then spectral_subtraction (meter s c) (to_float c) (Some p)
          else Inr (to_float c)) = Inr subtracted"
    and "low_pass_filter filt (meter s c) subtracted 8000 = Inr filtered"
  shows "snd (process_audio_chunk filt s c)
           = Inr (to_int16 (fst (adaptive_volume_control (meter s c) filtered)))"
proof (cases "length c = length p")
  case True
  with assms show ?thesis
    by (simp add: process_audio_chunk_def Let_def meter_def split: prod.splits)
next
  case False
  with assms(6) have sub: "subtracted = to_float c" by simp
  from process_active_mismatch [OF assms(1,2,3,5) False assms(4), of filt] assms(7) sub
  show ?thesis by (simp add: filter_then_limit_def)
qed

lemma process_active_unlimited:
  assumes "\<not> learning_noise s" and "processing_enabled s" and "\<not> noise_learned s \<or> c = []"
  shows "snd (process_audio_chunk filt s c) = Inr (to_int16 (to_float c))"
  using assms by (auto simp: process_audio_chunk_def Let_def)

text \<open>
  Claim C8. When the active processor runs its stages on a chunk and they return, the
  chunk it hands back is \<open>to_int16\<close> of the very list the limiter returned on the filter's
  output. For every list of samples, whatever their size, \<open>to_int16\<close> gives for each
  sample the 16-bit value of the sample scaled by 32768, clamped to \<open>[-32768, 32767]\<close> and
  truncated: a sample beyond the range comes out as the nearest bound and never wraps
  around.
\<close>

theorem output_conversion_never_wraps:
  assumes "\<not> learning_noise s" and "processing_enabled s" and "noise_learned s" and "c \<noteq> []"
    and "noise_profile s = Some p"
    and "(if length (to_float c) = length p
          then spectral_subtraction (meter s c) (to_float c) (Some p)
          else Inr (to_float c)) = Inr subtracted"
    and "low_pass_filter filt (meter s c) subtracted 8000 = Inr filtered"
  shows "snd (process_audio_chunk filt s c)
           = Inr (to_int16 (fst (adaptive_volume_control (meter s c) filtered)))
       \<and> (\<forall>ys. map sint (to_int16 ys)
                  = map (\<lambda>x. int_trunc (min (max (x * 32768) (- 32768)) 32767)) ys)
       \<and> (\<forall>x. - 32768 \<le> int_trunc (min (max (x * 32768) (- 32768)) 32767)
               \<and> int_trunc (min (max (x * 32768) (- 32768)) 32767) \<le> 32767)"
  using process_active_stages [OF assms] to_int16_exact clamped_sample_range by blast

lemma learned_chunk_output:
  assumes "length c = 1024"
  shows "snd (process_audio_chunk unfiltered learned c)
     = Inr (to_int16 (fst (adaptive_volume_control (meter learned c)
              (unfiltered (8000 / 22050) (to_float c)))))"
proof -
  from assms have ne: "c \<noteq> []" by auto
  have "process_audio_chunk unfiltered learned c
          = filter_then_limit unfiltered (meter learned c) (to_float c)"
    using assms ne
    by (intro process_active_mismatch [where p = "learned_profile (replicate 132300 0)"])
       (simp_all add: learned_profile_eq)
  moreover have "low_pass_filter unfiltered (meter learned c) (to_float c) 8000
          = Inr (unfiltered (8000 / 22050) (to_float c))"
    using low_pass_filter_ok [of "meter learned c" "to_float c" unfiltered] assms
    by simp
  ultimately show ?thesis by (simp add: filter_then_limit_def)
qed

theorem output_conversion_never_wraps_witness:
  "\<not> learning_noise learned \<and> processing_enabled learned \<and> noise_learned learned
   \<and> replicate 1024 (- 32768 :: 16 word) \<noteq> []
   \<and> noise_profile learned = Some (learned_profile (replicate 132300 0))
   \<and> (if length (to_float (replicate 1024 (- 32768))) = length (learned_profile (replicate 132300 0))
       then spectral_subtraction (meter learned (replicate 1024 (- 32768)))
              (to_float (replicate 1024 (- 32768))) (Some (learned_profile (replicate 132300 0)))
       else Inr (to_float (replicate 1024 (- 32768))))
      = Inr (to_float (replicate 1024 (- 32768)))
   \<and> low_pass_filter unfiltered (meter learned (replicate 1024 (- 32768)))
        (to_float (replicate 1024 (- 32768))) 8000
      = Inr (unfiltered (8000 / 22050) (to_float (replicate 1024 (- 32768))))
   \<and> snd (process_audio_chunk unfiltered learned (replicate 1024 (- 32768)))
      = Inr (to_int16 (fst (adaptive_volume_control (meter learned (replicate 1024 (- 32768)))
               (unfiltered (8000 / 22050) (to_float (replicate 1024 (- 32768)))))))
   \<and> map sint (to_int16 [2, - 2, 1 / 2, - (1 / 2)]) = [32767, - 32768, 16384, - 16384]"
proof -
  let ?c = "replicate 1024 (- 32768 :: 16 word)"
  let ?p = "learned_profile (replicate 132300 0)"
  have h: "\<not> learning_noise learned" "processing_enabled learned" "noise_learned learned"
    "?c \<noteq> []" "noise_profile learned = Some ?p"
    by (simp_all add: learned_profile_eq)
  have h6: "(if length (to_float ?c) = length ?p
       then spectral_subtraction (meter learned ?c) (to_float ?c) (Some ?p)
       else Inr (to_float ?c)) = Inr (to_float ?c)"
    by simp
  have h7: "low_pass_filter unfiltered (meter learned ?c) (to_float ?c) 8000
      = Inr (unfiltered (8000 / 22050) (to_float ?c))"
    using low_pass_filter_ok [of "meter learned ?c" "to_float ?c" unfiltered] by simp
  note t = output_conversion_never_wraps [OF h h6 h7]
  from t have a: "snd (process_audio_chunk unfiltered learned ?c)
      = Inr (to_int16 (fst (adaptive_volume_control (meter learned ?c)
               (unfiltered (8000 / 22050) (to_float ?c)))))"
    by blast
  from t have "map sint (to_int16 [2, - 2, 1 / 2, - (1 / 2)])
      = map (\<lambda>x. int_trunc (min (max (x * 32768) (- 32768)) 32767)) [2, - 2, 1 / 2, - (1 / 2)]"
    by blast
  hence b: "map sint (to_int16 [2, - 2, 1 / 2, - (1 / 2)]) = [32767, - 32768, 16384, - 16384]"
    by (simp add: int_trunc_def)
  from h h6 h7 a b show ?thesis by (intro conjI)
qed

subsection \<open>The conversion of simple\_pc\_to\_headphone.py\<close>

text \<open>
  The loop of \<^verbatim>\<open>SimpleAudioProcessor\<close> converts with
  \<^verbatim>\<open>(processed_audio * 32767).astype(np.int16)\<close> and has no clamp: on a sample beyond
  full scale the cast alone wraps around. The samples the loop converts are int16 values
  divided by 32768 and scaled by a factor of at most one, so they stay within full scale
  and on them the cast is exact.
\<close>

lemma unclamped_cast_wraps: "sint (astype_int16 (2 * 32767)) = - 2"
  by (simp add: astype_int16_def int_trunc_def)

lemma to_float_range: "x \<in> set (map (\<lambda>w. real_of_int (sint w) / 32768) (c :: 16 word list)) \<Longrightarrow> \<bar>x\<bar> \<le> 1"
proof -
  assume "x \<in> set (map (\<lambda>w. real_of_int (sint w) / 32768) c)"
  then obtain w :: "16 word" where x: "x = real_of_int (sint w) / 32768" by auto
  have "- 32768 \<le> sint w \<and> sint w < 32768"
    using sint_range_size [of w] by (simp add: word_size)
  hence "- 32768 \<le> real_of_int (sint w) \<and> real_of_int (sint w) \<le> 32768"
    by linarith
  thus ?thesis by (simp add: x abs_le_iff)
qed

lemma limited_range:
  assumes "\<forall>x \<in> set xs. \<bar>x\<bar> \<le> 1"
  shows "\<forall>x \<in> set (fst (snd (apply_safety_limiting sp xs))). \<bar>x\<bar> \<le> 1"
proof -
  have scale: "\<bar>x * 10 powr (- r / 20)\<bar> \<le> 1" if "\<bar>x\<bar> \<le> 1" and "0 < r" for x r :: real
  proof -
    have "10 powr (- r / 20) \<le> 10 powr 0"
      using that(2) by (intro powr_mono) simp_all
    hence "10 powr (- r / 20) \<le> 1" by simp
    moreover have "0 \<le> 10 powr (- r / 20)" by simp
    ultimately have "\<bar>x\<bar> * 10 powr (- r / 20) \<le> 1 * 1"
      using that(1) by (intro mult_mono) simp_all
    thus ?thesis by (simp add: abs_mult)
  qed
  show ?thesis
    using assms scale
    by (auto simp: apply_safety_limiting_def Let_def split: option.splits)
qed

lemma step_exact:
  "map sint (snd (audio_processing_step sp c))
     = map (\<lambda>x. int_trunc (x * 32767))
         (fst (snd (apply_safety_limiting sp (map (\<lambda>w. real_of_int (sint w) / 32768) c))))"
proof -
  let ?p = "fst (snd (apply_safety_limiting sp (map (\<lambda>w. real_of_int (sint w) / 32768) c)))"
  have "\<forall>x \<in> set ?p. \<bar>x\<bar> \<le> 1"
    by (rule limited_range) (rule ballI, erule to_float_range)
  hence "\<forall>x \<in> set ?p. sint (astype_int16 (x * 32767)) = int_trunc (x * 32767)"
    by (auto intro!: astype_int16_exact simp: abs_le_iff)
  thus ?thesis
    by (simp add: audio_processing_step_def Let_def split: prod.splits)
qed

subsection \<open>The ceiling\<close>

lemma avc_output_level: "calculate_db_level (fst (adaptive_volume_control s xs)) \<le> Some (MAX_DB s)"
proof (cases "Some (MAX_DB s) < calculate_db_level xs")
  case True
  then obtain d where d: "calculate_db_level xs = Some d" and over: "MAX_DB s < d"
    by (cases "calculate_db_level xs") auto
  from limiter_level_bound [OF d over] show ?thesis
    using d over by (simp add: adaptive_volume_control_def Let_def)
next
  case False
  hence "calculate_db_level xs \<le> Some (MAX_DB s)" by simp
  thus ?thesis by (simp add: avc_compliant)
qed

lemma sum_sq_mono:
  assumes "length ys = length xs" and "\<forall>i<length xs. \<bar>ys ! i\<bar> \<le> \<bar>xs ! i\<bar>"
  shows "sum_list (map (\<lambda>x. x\<^sup>2) ys) \<le> sum_list (map (\<lambda>x. x\<^sup>2) (xs :: real list))"
  using assms
proof (induction ys xs rule: list_induct2)
  case Nil
  show ?case by simp
next
  case (Cons y ys x xs)
  from Cons.prems have "\<bar>y\<bar> \<le> \<bar>x\<bar>" by (auto dest: spec [of _ 0])
  hence "y\<^sup>2 \<le> x\<^sup>2" by (rule abs_le_square_iff [THEN iffD1])
  moreover from Cons.prems have "\<forall>i<length xs. \<bar>ys ! i\<bar> \<le> \<bar>xs ! i\<bar>" by auto
  ultimately show ?case using Cons.IH by simp
qed

lemma level_mono:
  assumes "length ys = length xs" and "\<forall>i<length xs. \<bar>ys ! i\<bar> \<le> \<bar>xs ! i\<bar>"
  shows "calculate_db_level ys \<le> calculate_db_level xs"
proof (cases "xs = []")
  case True
  with assms show ?thesis by simp
next
  case False
  let ?n = "real (length xs)"
  let ?S = "sum_list (map (\<lambda>x. x\<^sup>2) xs)" and ?T = "sum_list (map (\<lambda>x. x\<^sup>2) ys)"
  from False have n: "0 < ?n" by simp
  from sum_sq_mono [OF assms] n have le: "sqrt (?T / ?n) \<le> sqrt (?S / ?n)"
    by (simp add: divide_right_mono)
  show ?thesis
  proof (cases "0 < sqrt (?T / ?n)")
    case False
    with assms(1) show ?thesis by (simp add: calculate_db_level_def Let_def)
  next
    case True
    with le have pos: "0 < sqrt (?S / ?n)" by linarith
    from True le have "log 10 (sqrt (?T / ?n)) \<le> log 10 (sqrt (?S / ?n))"
      by (intro log_mono) auto
    with True pos assms(1) \<open>xs \<noteq> []\<close> show ?thesis
      by (simp add: calculate_db_level_def Let_def)
  qed
qed

lemma abs_int_trunc_le: "\<bar>real_of_int (int_trunc y)\<bar> \<le> \<bar>y\<bar>"
proof (cases "0 \<le> y")
  case True
  hence "0 \<le> \<lfloor>y\<rfloor>" by simp
  with True show ?thesis
    using of_int_floor_le [of y] by (simp add: int_trunc_def)
next
  case False
  hence "\<lceil>y\<rceil> \<le> 0" by (simp add: ceiling_le_iff)
  with False show ?thesis
    using le_of_int_ceiling [of y] by (simp add: int_trunc_def)
qed

lemma abs_clip_le: "lo \<le> 0 \<Longrightarrow> 0 \<le> hi \<Longrightarrow> \<bar>clip x lo hi\<bar> \<le> \<bar>x\<bar>"
  by (auto simp: clip_def abs_if min_def max_def)

lemma int16_roundtrip_le:
  "\<bar>real_of_int (sint (astype_int16 (clip (x * 32768) (- 32768) 32767))) / 32768\<bar> \<le> \<bar>x\<bar>"
proof -
  let ?y = "clip (x * 32768) (- 32768) 32767"
  have "sint (astype_int16 ?y) = int_trunc ?y"
    using clip_bounds [of "- 32768" 32767 "x * 32768"] by (intro astype_int16_exact) simp_all
  moreover have "\<bar>real_of_int (int_trunc ?y)\<bar> \<le> \<bar>?y\<bar>" by (rule abs_int_trunc_le)
  moreover have "\<bar>?y\<bar> \<le> \<bar>x * 32768\<bar>" by (rule abs_clip_le) simp_all
  ultimately have "\<bar>real_of_int (sint (astype_int16 ?y))\<bar> \<le> \<bar>x\<bar> * 32768"
    by (simp add: abs_mult)
  thus ?thesis by simp
qed

lemma level_of_converted: "calculate_db_level (to_float (to_int16 ys)) \<le> calculate_db_level ys"
proof (rule level_mono)
  show "length (to_float (to_int16 ys)) = length ys"
    by (simp add: to_float_def to_int16_def)
  show "\<forall>i<length ys. \<bar>to_float (to_int16 ys) ! i\<bar> \<le> \<bar>ys ! i\<bar>"
  proof (intro allI impI)
    fix i assume "i < length ys"
    hence "to_float (to_int16 ys) ! i
             = real_of_int (sint (astype_int16 (clip (ys ! i * 32768) (- 32768) 32767))) / 32768"
      by (simp add: to_float_def to_int16_def)
    thus "\<bar>to_float (to_int16 ys) ! i\<bar> \<le> \<bar>ys ! i\<bar>"
      by (simp only: int16_roundtrip_le)
  qed
qed

lemma process_active_limited:
  assumes "\<not> learning_noise s" and "processing_enabled s" and "noise_learned s" and "c \<noteq> []"
    and "snd (process_audio_chunk filt s c) = Inr out"
  shows "\<exists>filtered. out = to_int16 (fst (adaptive_volume_control (meter s c) filtered))"
proof -
  from assms obtain profile subtracted filtered where
    "noise_profile s = Some profile"
    "low_pass_filter filt (meter s c) subtracted 8000 = Inr filtered"
    "out = to_int16 (fst (adaptive_volume_control (meter s c) filtered))"
    by (auto simp: process_audio_chunk_def Let_def meter_def
             split: if_splits option.splits sum.splits prod.splits)
  thus ?thesis by blast
qed

lemma active_output_level:
  assumes "\<not> learning_noise s" and "processing_enabled s" and "noise_learned s"
    and "snd (process_audio_chunk filt s c) = Inr out"
  shows "calculate_db_level (to_float out) \<le> Some (MAX_DB s)"
proof (cases "c = []")
  case True
  with assms have "out = []"
    by (simp add: process_active_empty)
  thus ?thesis by (simp add: to_float_def calculate_db_level_def)
next
  case False
  from process_active_limited [OF assms(1,2,3) False assms(4)]
  obtain filtered where out: "out = to_int16 (fst (adaptive_volume_control (meter s c) filtered))"
    by blast
  have "calculate_db_level (fst (adaptive_volume_control (meter s c) filtered)) \<le> Some (MAX_DB (meter s c))"
    by (rule avc_output_level)
  with level_of_converted [of "fst (adaptive_volume_control (meter s c) filtered)"]
  have "calculate_db_level (to_float out) \<le> Some (MAX_DB (meter s c))"
    unfolding out by (rule order_trans)
  thus ?thesis by simp
qed

text \<open>
  Claim C1. Whenever the measured level of a chunk is above the ceiling, the level of the
  chunk the limiter returns is at most the ceiling: the gain brings the level to the
  ceiling exactly and the soft knee \<open>tanh (0.8 * x) * 0.8\<close> only shrinks a sample, so the
  overshoot bound can be taken as zero. And every chunk that the active processor returns
  after learning, read back as samples, has a level of at most the ceiling: clipping and
  truncation to int16 only shrink a sample as well.
\<close>

theorem limiter_output_below_ceiling:
  "(Some (MAX_DB self) < calculate_db_level xs
      \<longrightarrow> calculate_db_level (fst (adaptive_volume_control self xs)) \<le> Some (MAX_DB self))
   \<and> (\<not> learning_noise s \<and> processing_enabled s \<and> noise_learned s
        \<and> snd (process_audio_chunk filt s c) = Inr out
      \<longrightarrow> calculate_db_level (to_float out) \<le> Some (MAX_DB s))"
proof (intro conjI impI)
  show "calculate_db_level (fst (adaptive_volume_control self xs)) \<le> Some (MAX_DB self)"
    by (rule avc_output_level)
next
  assume "\<not> learning_noise s \<and> processing_enabled s \<and> noise_learned s
        \<and> snd (process_audio_chunk filt s c) = Inr out"
  thus "calculate_db_level (to_float out) \<le> Some (MAX_DB s)"
    by (intro active_output_level [of s filt c out]) simp_all
qed

theorem limiter_output_below_ceiling_witness:
  "Some (MAX_DB init) < calculate_db_level [1]
   \<and> calculate_db_level (fst (adaptive_volume_control init [1])) \<le> Some (MAX_DB init)
   \<and> \<not> learning_noise learned \<and> processing_enabled learned \<and> noise_learned learned
   \<and> snd (process_audio_chunk unfiltered learned (replicate 1024 (- 32768)))
       = Inr (to_int16 (fst (adaptive_volume_control (meter learned (replicate 1024 (- 32768)))
                (unfiltered (8000 / 22050) (to_float (replicate 1024 (- 32768)))))))
   \<and> calculate_db_level (to_float (to_int16 (fst (adaptive_volume_control
          (meter learned (replicate 1024 (- 32768)))
          (unfiltered (8000 / 22050) (to_float (replicate 1024 (- 32768))))))))
       \<le> Some (MAX_DB learned)"
proof -
  let ?c = "replicate 1024 (- 32768 :: 16 word)"
  let ?out = "to_int16 (fst (adaptive_volume_control (meter learned ?c)
                (unfiltered (8000 / 22050) (to_float ?c))))"
  have h1: "Some (MAX_DB init) < calculate_db_level [1]"
    by (simp add: level_of_one)
  have h2: "\<not> learning_noise learned" "processing_enabled learned" "noise_learned learned"
    by simp_all
  have h3: "snd (process_audio_chunk unfiltered learned ?c) = Inr ?out"
    by (rule learned_chunk_output) simp
  note t = limiter_output_below_ceiling [of init "[1]" learned unfiltered ?c ?out]
  from t h1 have a: "calculate_db_level (fst (adaptive_volume_control init [1])) \<le> Some (MAX_DB init)"
    by blast
  from t h2 h3 have b: "calculate_db_level (to_float ?out) \<le> Some (MAX_DB learned)"
    by blast
  from h1 a h2 h3 b show ?thesis by blast
qed

subsection \<open>Spectral subtraction with factor zero\<close>

text \<open>The inverse transform undoes the transform: the sums over the roots of unity.\<close>

lemma sum_list_upt: "sum_list (map f [0..<n]) = (\<Sum>m<n. f m)" for f :: "nat \<Rightarrow> 'a::comm_monoid_add"
  by (simp add: interv_sum_list_conv_sum_set_nat atLeast0LessThan)

lemma cis_eq_one_int:
  assumes "cis a = 1"
  shows "\<exists>k::int. a = real_of_int k * 2 * pi"
proof -
  from assms have "cos a = 1" by (simp add: complex_eq_iff)
  thus ?thesis by (simp add: cos_one_2pi_int)
qed

lemma unit_root_ne_one:
  assumes n: "0 < n" and d: "\<not> int n dvd d"
  shows "cis (2 * pi * real_of_int d / real n) \<noteq> 1"
proof
  assume "cis (2 * pi * real_of_int d / real n) = 1"
  then obtain k :: int where k: "2 * pi * real_of_int d / real n = real_of_int k * 2 * pi"
    using cis_eq_one_int by blast
  hence "(2 * pi) * (real_of_int d / real n) = (2 * pi) * real_of_int k"
    by (simp add: mult_ac)
  hence "real_of_int d / real n = real_of_int k"
    by (simp only: mult_cancel_left) simp
  hence "real_of_int d = real_of_int (k * int n)"
    using n by (simp add: field_simps)
  hence "d = k * int n" by (simp only: of_int_eq_iff)
  with d show False by simp
qed

lemma unit_root_sum_zero:
  assumes n: "0 < n" and d: "\<not> int n dvd d"
  shows "(\<Sum>m<n. cis (2 * pi * real m * real_of_int d / real n)) = 0"
proof -
  let ?w = "cis (2 * pi * real_of_int d / real n)"
  have pw: "cis (2 * pi * real m * real_of_int d / real n) = ?w ^ m" for m
    by (simp add: DeMoivre mult_ac)
  have "?w ^ n = cis (2 * pi * real_of_int d)"
    using n by (simp add: DeMoivre)
  also have "\<dots> = 1"
    by (rule cis_multiple_2pi) simp
  finally have wn: "?w ^ n = 1" .
  have "(\<Sum>m<n. ?w ^ m) = (?w ^ n - 1) / (?w - 1)"
    by (rule geometric_sum) (rule unit_root_ne_one [OF n d])
  with wn show ?thesis by (simp add: pw)
qed

lemma unit_root_sum:
  assumes "j < n" and "k < n"
  shows "(\<Sum>m<n. cis (- (2 * pi * real j * real m / real n)) * cis (2 * pi * real m * real k / real n))
           = (if j = k then of_nat n else 0)"
proof -
  have comb: "cis (- (2 * pi * real j * real m / real n)) * cis (2 * pi * real m * real k / real n)
          = cis (2 * pi * real m * real_of_int (int k - int j) / real n)" for m
  proof -
    have "- (2 * pi * real j * real m / real n) + 2 * pi * real m * real k / real n
            = 2 * pi * real m * real_of_int (int k - int j) / real n"
      by (simp add: algebra_simps diff_divide_distrib)
    thus ?thesis by (simp only: cis_mult)
  qed
  show ?thesis
  proof (cases "j = k")
    case True
    show ?thesis unfolding comb using True by simp
  next
    case False
    have "\<not> int n dvd (int k - int j)"
    proof
      assume "int n dvd (int k - int j)"
      moreover have "\<bar>int k - int j\<bar> < int n" using assms by linarith
      ultimately have "int k - int j = 0"
        using zdvd_not_zless [of "\<bar>int k - int j\<bar>" "int n"] by (cases "int k - int j = 0") auto
      with False show False by simp
    qed
    from unit_root_sum_zero [OF _ this] assms False show ?thesis
      by (simp add: comb)
  qed
qed

lemma idft_dft_nth:
  assumes k: "k < length a"
  shows "idft (dft a) ! k = a ! k"
proof -
  let ?n = "length a"
  have "idft (dft a) ! k
      = (\<Sum>m<?n. (\<Sum>j<?n. a ! j * cis (- (2 * pi * real j * real m / real ?n)))
                    * cis (2 * pi * real m * real k / real ?n)) / of_nat ?n"
    using k by (simp add: idft_def dft_def Let_def sum_list_upt)
  also have "(\<Sum>m<?n. (\<Sum>j<?n. a ! j * cis (- (2 * pi * real j * real m / real ?n)))
                    * cis (2 * pi * real m * real k / real ?n))
      = (\<Sum>m<?n. \<Sum>j<?n. a ! j * (cis (- (2 * pi * real j * real m / real ?n))
                    * cis (2 * pi * real m * real k / real ?n)))"
    by (simp add: sum_distrib_right mult.assoc)
  also have "\<dots> = (\<Sum>j<?n. \<Sum>m<?n. a ! j * (cis (- (2 * pi * real j * real m / real ?n))
                    * cis (2 * pi * real m * real k / real ?n)))"
    by (rule sum.swap)
  also have "\<dots> = (\<Sum>j<?n. a ! j * (if j = k then of_nat ?n else 0))"
    using k by (intro sum.cong refl) (simp add: sum_distrib_left [symmetric] unit_root_sum)
  also have "\<dots> = (\<Sum>j<?n. if j = k then a ! j * of_nat ?n else 0)"
    by (intro sum.cong refl) simp
  also have "\<dots> = a ! k * of_nat ?n"
    using k by (simp add: sum.delta)
  finally have "idft (dft a) ! k = a ! k * of_nat ?n / of_nat ?n" .
  moreover from k have "?n \<noteq> 0" by auto
  ultimately show ?thesis by simp
qed

lemma idft_dft: "idft (dft a) = a"
  by (rule nth_equalityI) (simp_all add: idft_dft_nth)

text \<open>Magnitude and phase give the number back.\<close>

lemma polar_pos:
  assumes "0 < x"
  shows "sqrt (x\<^sup>2 + y\<^sup>2) * cos (arctan (y / x)) = x"
    and "sqrt (x\<^sup>2 + y\<^sup>2) * sin (arctan (y / x)) = y"
proof -
  have "1 + (y / x)\<^sup>2 = (x\<^sup>2 + y\<^sup>2) / x\<^sup>2"
    using assms by (simp add: field_simps power2_eq_square)
  hence "sqrt (1 + (y / x)\<^sup>2) = sqrt (x\<^sup>2 + y\<^sup>2) / x"
    using assms by (simp add: real_sqrt_divide)
  moreover have "0 < sqrt (x\<^sup>2 + y\<^sup>2)"
    using assms by (simp add: sum_power2_gt_zero_iff)
  ultimately show "sqrt (x\<^sup>2 + y\<^sup>2) * cos (arctan (y / x)) = x"
    and "sqrt (x\<^sup>2 + y\<^sup>2) * sin (arctan (y / x)) = y"
    using assms by (simp_all add: cos_arctan sin_arctan)
qed

lemma polar_neg:
  assumes "x < 0"
  shows "sqrt (x\<^sup>2 + y\<^sup>2) * cos (arctan (y / x)) = - x"
    and "sqrt (x\<^sup>2 + y\<^sup>2) * sin (arctan (y / x)) = - y"
  using polar_pos [of "- x" "- y"] assms by simp_all

lemma polar_arctan2:
  "sqrt (x\<^sup>2 + y\<^sup>2) * cos (arctan2 y x) = x"
  "sqrt (x\<^sup>2 + y\<^sup>2) * sin (arctan2 y x) = y"
proof -
  consider "0 < x" | "x < 0" "0 \<le> y" | "x < 0" "y < 0" | "x = 0" "0 < y" | "x = 0" "y < 0" | "x = 0" "y = 0"
    by linarith
  hence "sqrt (x\<^sup>2 + y\<^sup>2) * cos (arctan2 y x) = x \<and> sqrt (x\<^sup>2 + y\<^sup>2) * sin (arctan2 y x) = y"
  proof cases
    case 1
    thus ?thesis by (simp add: arctan2_def polar_pos)
  next
    case 2
    thus ?thesis by (simp add: arctan2_def polar_neg)
  next
    case 3
    thus ?thesis by (simp add: arctan2_def polar_neg)
  next
    case 4
    thus ?thesis by (simp add: arctan2_def)
  next
    case 5
    thus ?thesis by (simp add: arctan2_def)
  next
    case 6
    thus ?thesis by (simp add: arctan2_def)
  qed
  thus "sqrt (x\<^sup>2 + y\<^sup>2) * cos (arctan2 y x) = x" "sqrt (x\<^sup>2 + y\<^sup>2) * sin (arctan2 y x) = y"
    by simp_all
qed

lemma cmod_cis_angle: "complex_of_real (cmod z) * cis (angle z) = z"
  by (simp add: complex_eq_iff angle_def cmod_def polar_arctan2)

lemma map2_minus_zero:
  "length ns = length xs \<Longrightarrow> map2 (-) xs (map (\<lambda>v. 0 * v) ns) = (xs :: real list)"
  by (induction xs ns rule: list_induct2') simp_all

lemma map2_max_floor:
  "map2 max (map cmod zs) (map (\<lambda>v. 0.1 * v) (map cmod zs)) = map cmod zs"
  by (induction zs) (simp_all add: max_def)

lemma map2_polar:
  "map2 (\<lambda>m p. complex_of_real m * cis p) (map cmod zs) (map angle zs) = zs"
  by (induction zs) (simp_all add: cmod_cis_angle)

lemma map_Re_of_real: "map Re (map complex_of_real xs) = xs"
  by (induction xs) simp_all

lemma spectral_subtraction_zero_factor:
  assumes "noise_reduction_factor s = 0" and "64 \<le> length xs" and "length ns = length xs"
  shows "spectral_subtraction s xs (Some ns) = Inr (map2 (*) xs (hanning (length xs)))"
proof -
  define w where "w = map2 (*) xs (hanning (length xs))"
  define F where "F = dft (map complex_of_real w)"
  have lF: "length F = length xs" by (simp add: F_def w_def)
  from assms(2) have ne: "xs \<noteq> []" by auto
  have f: "fft (map complex_of_real w) = Inr F"
    using ne by (simp add: fft_def F_def w_def)
  have len: "\<not> length xs < 64" using assms(2) by simp
  have same: "length (map (\<lambda>v. 0 * v) ns) = length (map cmod F)"
    using assms(3) lF by simp
  have sub: "map2 (-) (map cmod F) (map (\<lambda>v. 0 * v) ns) = map cmod F"
    by (rule map2_minus_zero) (simp add: assms(3) lF)
  have i: "ifft F = Inr (idft F)"
    using ne lF by (auto simp: ifft_def)
  have "spectral_subtraction s xs (Some ns) = Inr (map Re (idft F))"
    unfolding spectral_subtraction_def Let_def assms(1) w_def [symmetric]
    by (simp only: option.case len if_False f sum.case same simp_thms if_True sub
                   map2_max_floor map2_polar i)
  also have "\<dots> = Inr w"
    by (simp only: F_def idft_dft map_Re_of_real)
  finally show ?thesis by (simp only: w_def)
qed

lemma hanning_first: "1 < M \<Longrightarrow> hanning M ! 0 = 0"
proof -
  assume M: "1 < M"
  hence "real_of_int (1 - int M) / real (M - 1) = - 1"
    by (simp add: field_simps of_nat_diff)
  hence "pi * (real_of_int (1 - int M) / real (M - 1)) = - pi"
    by (simp only: mult_minus_right mult_1_right)
  hence "pi * real_of_int (1 - int M + 2 * int 0) / real (M - 1) = - pi"
    by simp
  hence "cos (pi * real_of_int (1 - int M + 2 * int 0) / real (M - 1)) = - 1"
    by (simp only: cos_minus cos_pi)
  with M show ?thesis
    by (simp add: hanning_def del: of_int_diff of_int_add)
qed

lemma map2_times_ones: "length ys = n \<Longrightarrow> map2 (*) (replicate n (1::real)) ys = ys"
  by (induction ys arbitrary: n) auto

text \<open>
  Claim C5, as the code has it. With \<^verbatim>\<open>noise_reduction_factor\<close> zero, a chunk of at least
  64 samples and a profile of the same length, the subtractor returns the chunk multiplied
  sample by sample with the Hann window: magnitude and phase rebuild the spectrum of the
  windowed chunk and the inverse transform gives the windowed chunk back. The window is
  not undone.
\<close>

theorem zero_factor_returns_windowed_chunk:
  assumes "noise_reduction_factor s = 0" and "64 \<le> length xs" and "length ns = length xs"
  shows "spectral_subtraction s xs (Some ns) = Inr (map2 (*) xs (hanning (length xs)))"
  using assms by (rule spectral_subtraction_zero_factor)

text \<open>
  Claim C5 as stated fails: from 64 samples of value 1 the subtractor with factor zero
  returns the Hann window itself, whose first sample is 0, not 1.
\<close>

theorem zero_factor_counterexample:
  "spectral_subtraction (init\<lparr>noise_reduction_factor := 0\<rparr>) (replicate 64 1) (Some (replicate 64 0))
     = Inr (hanning 64)
   \<and> hanning 64 ! 0 = 0
   \<and> replicate 64 (1::real) ! 0 = 1
   \<and> spectral_subtraction (init\<lparr>noise_reduction_factor := 0\<rparr>) (replicate 64 1) (Some (replicate 64 0))
       \<noteq> Inr (replicate 64 1)"
proof -
  have a: "spectral_subtraction (init\<lparr>noise_reduction_factor := 0\<rparr>) (replicate 64 1) (Some (replicate 64 0))
     = Inr (hanning 64)"
    by (simp add: spectral_subtraction_zero_factor map2_times_ones)
  have b: "hanning 64 ! 0 = 0" by (simp add: hanning_first)
  have c: "replicate 64 (1::real) ! 0 = 1" by simp
  from b c have "hanning 64 \<noteq> replicate 64 1" by (metis zero_neq_one)
  with a b c show ?thesis by simp
qed

theorem zero_factor_returns_windowed_chunk_witness:
  "noise_reduction_factor (init\<lparr>noise_reduction_factor := 0\<rparr>) = 0
   \<and> 64 \<le> length (replicate 64 (1::real))
   \<and> length (replicate 64 (0::real)) = length (replicate 64 (1::real))
   \<and> spectral_subtraction (init\<lparr>noise_reduction_factor := 0\<rparr>) (replicate 64 1) (Some (replicate 64 0))
       = Inr (map2 (*) (replicate 64 1) (hanning (length (replicate 64 (1::real)))))"
proof -
  have h: "noise_reduction_factor (init\<lparr>noise_reduction_factor := 0\<rparr>) = 0"
    "64 \<le> length (replicate 64 (1::real))"
    "length (replicate 64 (0::real)) = length (replicate 64 (1::real))"
    by simp_all
  from zero_factor_returns_windowed_chunk [OF h] h show ?thesis by blast
qed

end
